theory Spec2Isabelle
  imports Main
begin

chapter \<open>Storage and concurrency engine: lock manager, buffer pool, B+tree\<close>

section \<open>Lock manager (lock\_manager.h, lock\_manager.cpp)\<close>

text \<open>
  A record identifier is a pair (page id, slot); transaction ids are C++ ints, a smaller
  id being an older transaction. The lock table is an unordered map from record
  identifiers to lists of requests.
\<close>

type_synonym RID = "int \<times> int"

datatype LockMode = SHARED | EXCLUSIVE | UPGRADING

datatype TransactionState = GROWING | SHRINKING | COMMITTED | ABORTED

text \<open>\<open>struct TxItem\<close>: the members \<open>tid_\<close>, \<open>mode_\<close>, \<open>granted_\<close>. The mutex and
  the condition variable of an item only serve the blocking of \<open>Wait\<close>.\<close>

record TxItem =
  tid :: int
  mode :: LockMode
  granted :: bool

text \<open>\<open>struct TxList\<close>: the members \<open>locks_\<close> and \<open>hasUpgrading_\<close>.\<close>

record TxList =
  locks :: "TxItem list"
  hasUpgrading :: bool

text \<open>The part of \<open>Transaction\<close> the lock manager reads and writes: its id, its state
  and its two lock sets.\<close>

record Transaction =
  txn_id :: int
  state :: TransactionState
  shared_lock_set :: "RID set"
  exclusive_lock_set :: "RID set"

record LockManager =
  strict_2PL :: bool
  lockTable :: "RID \<rightharpoonup> TxList"

text \<open>What ends the process: a failed \<open>assert\<close>, the use of a null pointer, and (in
  the B+tree over the buffer pool's interface) the fetch of a page that was never
  allocated or has been deleted, whose bytes nothing determines.\<close>

datatype error = AssertionFailed | NullPointer | UnknownPage

text \<open>A lock call either returns its boolean, or the calling thread blocks in
  \<open>TxItem::Wait\<close> on the item it appended.\<close>

datatype call_result = Returned bool | Blocked

text \<open>\<open>TxItem::Grant\<close>.\<close>

definition Grant :: "TxItem \<Rightarrow> TxItem" where
  "Grant tx = tx\<lparr>granted := True\<rparr>"

text \<open>\<open>lockTable_[rid]\<close>: \<open>operator[]\<close> of an unordered map inserts a
  value-initialised list for a missing key.\<close>

definition empty_TxList :: TxList where
  "empty_TxList = \<lparr>locks = [], hasUpgrading = False\<rparr>"

definition table_at :: "(RID \<rightharpoonup> TxList) \<Rightarrow> RID \<Rightarrow> TxList" where
  "table_at t rid = (case t rid of None \<Rightarrow> empty_TxList | Some l \<Rightarrow> l)"

text \<open>\<open>TxList::checkCanGrant\<close>.\<close>

definition checkCanGrant :: "TxList \<Rightarrow> LockMode \<Rightarrow> bool" where
  "checkCanGrant l m =
     (if locks l = [] then True
      else if m = SHARED then granted (last (locks l)) \<and> mode (last (locks l)) = SHARED
      else False)"

text \<open>\<open>TxList::insert\<close>. With \<open>granted\<close> false the thread blocks after the item is
  appended and \<open>hasUpgrading_\<close> is set; what it does once woken is \<open>insert_resume\<close>.\<close>

definition TxList_insert ::
  "TxList \<Rightarrow> Transaction \<Rightarrow> RID \<Rightarrow> LockMode \<Rightarrow> bool \<Rightarrow> call_result \<times> TxList \<times> Transaction" where
  "TxList_insert l txn rid m g =
     (let upgradingMode = (m = UPGRADING);
          m' = (if upgradingMode \<and> g then EXCLUSIVE else m);
          l1 = l\<lparr>locks := locks l @ [\<lparr>tid = txn_id txn, mode = m', granted = g\<rparr>]\<rparr>
      in if \<not> g then
           (Blocked, l1\<lparr>hasUpgrading := (hasUpgrading l1 \<or> upgradingMode)\<rparr>, txn)
         else if m' = SHARED then
           (Returned True, l1, txn\<lparr>shared_lock_set := insert rid (shared_lock_set txn)\<rparr>)
         else
           (Returned True, l1, txn\<lparr>exclusive_lock_set := insert rid (exclusive_lock_set txn)\<rparr>))"

definition insert_resume :: "Transaction \<Rightarrow> RID \<Rightarrow> LockMode \<Rightarrow> Transaction" where
  "insert_resume txn rid m =
     (if m = SHARED then txn\<lparr>shared_lock_set := insert rid (shared_lock_set txn)\<rparr>
      else txn\<lparr>exclusive_lock_set := insert rid (exclusive_lock_set txn)\<rparr>)"

text \<open>\<open>find_if\<close> for the first item of a transaction, and \<open>list::erase\<close> of that
  item.\<close>

fun find_tid :: "int \<Rightarrow> TxItem list \<Rightarrow> TxItem option" where
  "find_tid t [] = None"
| "find_tid t (x # xs) = (if tid x = t then Some x else find_tid t xs)"

fun erase_tid :: "int \<Rightarrow> TxItem list \<Rightarrow> TxItem list" where
  "erase_tid t [] = []"
| "erase_tid t (x # xs) = (if tid x = t then xs else x # erase_tid t xs)"

text \<open>Step 2 of \<open>LockManager::lockTemplate\<close>, taken by an upgrade only: the result is
  the list and the transaction after the shared item is erased, or the abort, or the
  failed assertion on the shared lock set.\<close>

datatype 'a step = Abort | Failed | Go 'a

definition upgrade_step :: "TxList \<Rightarrow> Transaction \<Rightarrow> RID \<Rightarrow> (TxList \<times> Transaction) step" where
  "upgrade_step l txn rid =
     (if hasUpgrading l then Abort
      else case find_tid (txn_id txn) (locks l) of
        None \<Rightarrow> Abort
      | Some it \<Rightarrow>
          if mode it \<noteq> SHARED \<or> \<not> granted it then Abort
          else if rid \<notin> shared_lock_set txn then Failed
          else Go (l\<lparr>locks := erase_tid (txn_id txn) (locks l)\<rparr>,
                   txn\<lparr>shared_lock_set := shared_lock_set txn - {rid}\<rparr>))"

text \<open>\<open>LockManager::lockTemplate\<close>.\<close>

definition lockTemplate ::
  "LockManager \<Rightarrow> Transaction \<Rightarrow> RID \<Rightarrow> LockMode
     \<Rightarrow> error + (call_result \<times> LockManager \<times> Transaction)" where
  "lockTemplate lm txn rid m =
     (if state txn \<noteq> GROWING then Inr (Returned False, lm, txn\<lparr>state := ABORTED\<rparr>)
      else
        let txList = table_at (lockTable lm) rid;
            lm0 = lm\<lparr>lockTable := (lockTable lm)(rid \<mapsto> txList)\<rparr>
        in case (if m = UPGRADING then upgrade_step txList txn rid else Go (txList, txn)) of
             Abort \<Rightarrow> Inr (Returned False, lm0, txn\<lparr>state := ABORTED\<rparr>)
           | Failed \<Rightarrow> Inl AssertionFailed
           | Go (l1, txn1) \<Rightarrow>
               let canGrant = checkCanGrant l1 m in
               if \<not> canGrant \<and> tid (last (locks l1)) < txn_id txn1 then
                 Inr (Returned False, lm\<lparr>lockTable := (lockTable lm)(rid \<mapsto> l1)\<rparr>,
                      txn1\<lparr>state := ABORTED\<rparr>)
               else
                 (case TxList_insert l1 txn1 rid m canGrant of
                    (r, l2, txn2) \<Rightarrow>
                      Inr (r, lm\<lparr>lockTable := (lockTable lm)(rid \<mapsto> l2)\<rparr>, txn2)))"

definition LockShared ::
  "LockManager \<Rightarrow> Transaction \<Rightarrow> RID \<Rightarrow> error + (call_result \<times> LockManager \<times> Transaction)" where
  "LockShared lm txn rid = lockTemplate lm txn rid SHARED"

definition LockExclusive ::
  "LockManager \<Rightarrow> Transaction \<Rightarrow> RID \<Rightarrow> error + (call_result \<times> LockManager \<times> Transaction)" where
  "LockExclusive lm txn rid = lockTemplate lm txn rid EXCLUSIVE"

definition LockUpgrade ::
  "LockManager \<Rightarrow> Transaction \<Rightarrow> RID \<Rightarrow> error + (call_result \<times> LockManager \<times> Transaction)" where
  "LockUpgrade lm txn rid = lockTemplate lm txn rid UPGRADING"

text \<open>Step 4 of \<open>LockManager::Unlock\<close>: the loop over the list that remains. It takes
  and returns the items and the \<open>hasUpgrading_\<close> flag of the list.\<close>

fun grant_walk :: "TxItem list \<Rightarrow> bool \<Rightarrow> TxItem list \<times> bool" where
  "grant_walk [] h = ([], h)"
| "grant_walk (tx # rest) h =
     (if granted tx then (tx # rest, h)
      else if mode tx = SHARED then
        (case grant_walk rest h of (rest', h') \<Rightarrow> (Grant tx # rest', h'))
      else if mode tx = UPGRADING then ((Grant tx)\<lparr>mode := EXCLUSIVE\<rparr> # rest, False)
      else (Grant tx # rest, h))"

text \<open>Step 1 of \<open>Unlock\<close>: the state check; \<open>None\<close> is the abort.\<close>

definition unlock_state :: "bool \<Rightarrow> Transaction \<Rightarrow> Transaction option" where
  "unlock_state strict txn =
     (if strict then
        (if state txn \<noteq> COMMITTED \<and> state txn \<noteq> ABORTED then None else Some txn)
      else if state txn = GROWING then Some (txn\<lparr>state := SHRINKING\<rparr>)
      else Some txn)"

text \<open>\<open>LockManager::Unlock\<close>.\<close>

definition Unlock ::
  "LockManager \<Rightarrow> Transaction \<Rightarrow> RID \<Rightarrow> error + (bool \<times> LockManager \<times> Transaction)" where
  "Unlock lm txn rid =
     (case unlock_state (strict_2PL lm) txn of
        None \<Rightarrow> Inr (False, lm, txn\<lparr>state := ABORTED\<rparr>)
      | Some txn1 \<Rightarrow>
          let txList = table_at (lockTable lm) rid in
          (case find_tid (txn_id txn1) (locks txList) of
             None \<Rightarrow> Inl AssertionFailed
           | Some it \<Rightarrow>
               if rid \<notin> (if mode it = SHARED then shared_lock_set txn1
                          else exclusive_lock_set txn1)
               then Inl AssertionFailed
               else
                 let txn2 = (if mode it = SHARED
                             then txn1\<lparr>shared_lock_set := shared_lock_set txn1 - {rid}\<rparr>
                             else txn1\<lparr>exclusive_lock_set := exclusive_lock_set txn1 - {rid}\<rparr>);
                     remaining = erase_tid (txn_id txn1) (locks txList)
                 in if remaining = [] then
                      Inr (True, lm\<lparr>lockTable := (lockTable lm)(rid := None)\<rparr>, txn2)
                    else
                      (case grant_walk remaining (hasUpgrading txList) of
                         (ls, h) \<Rightarrow>
                           Inr (True,
                                lm\<lparr>lockTable := (lockTable lm)
                                       (rid \<mapsto> \<lparr>locks = ls, hasUpgrading = h\<rparr>)\<rparr>,
                                txn2))))"


section \<open>Buffer pool manager (buffer\_pool\_manager.cpp, lru\_replacer.cpp)\<close>

definition INVALID_PAGE_ID :: int where
  "INVALID_PAGE_ID = -1"

text \<open>
  The contents of a page: the log sequence number stored in its bytes (read by
  \<open>GetLSN\<close>) and the remaining bytes. \<open>ResetMemory\<close> zeroes all of them.
\<close>

record page_data =
  page_lsn :: int
  payload :: "int list"

definition zero_data :: page_data where
  "zero_data = \<lparr>page_lsn = 0, payload = []\<rparr>"

text \<open>\<open>class Page\<close>, one per frame: the members \<open>page_id_\<close>, \<open>pin_count_\<close>,
  \<open>is_dirty_\<close> and \<open>data_\<close>.\<close>

record Page =
  page_id :: int
  pin_count :: int
  is_dirty :: bool
  data :: page_data

definition GetLSN :: "Page \<Rightarrow> int" where
  "GetLSN p = page_lsn (data p)"

definition ResetMemory :: "Page \<Rightarrow> Page" where
  "ResetMemory p = p\<lparr>data := zero_data\<rparr>"

text \<open>
  The disk manager (\<open>disk_manager.cpp\<close>): the pages of the data file, the counter of
  \<open>AllocatePage\<close>, and the page calls it has received, oldest first.
  \<open>DeallocatePage\<close> does nothing, so the call itself is all there is to observe.
\<close>

datatype disk_call = Wrote int page_data | Read int | Allocated int | Deallocated int

record DiskManager =
  db_file :: "int \<Rightarrow> page_data"
  disk_next_page_id :: int
  calls :: "disk_call list"

definition WritePage :: "DiskManager \<Rightarrow> int \<Rightarrow> page_data \<Rightarrow> DiskManager" where
  "WritePage d pid dat = d\<lparr>db_file := (db_file d)(pid := dat), calls := calls d @ [Wrote pid dat]\<rparr>"

definition ReadPage :: "DiskManager \<Rightarrow> int \<Rightarrow> page_data \<times> DiskManager" where
  "ReadPage d pid = (db_file d pid, d\<lparr>calls := calls d @ [Read pid]\<rparr>)"

definition AllocatePage :: "DiskManager \<Rightarrow> int \<times> DiskManager" where
  "AllocatePage d =
     (disk_next_page_id d,
      d\<lparr>disk_next_page_id := disk_next_page_id d + 1,
        calls := calls d @ [Allocated (disk_next_page_id d)]\<rparr>)"

definition DeallocatePage :: "DiskManager \<Rightarrow> int \<Rightarrow> DiskManager" where
  "DeallocatePage d pid = d\<lparr>calls := calls d @ [Deallocated pid]\<rparr>"

text \<open>
  The log manager (\<open>log_manager.cpp\<close>) as the buffer pool sees it. A forced flush
  raises \<open>needFlush_\<close> and waits for the flush thread, whose wake-up writes the log
  buffer out when it is not empty and then sets the persistent sequence number to
  \<open>lastLsn_\<close>.
\<close>

record LogManager =
  persistent_lsn :: int
  lastLsn :: int
  logBufferOffset :: int
  needFlush :: bool

definition flush_thread_wakeup :: "LogManager \<Rightarrow> LogManager" where
  "flush_thread_wakeup l =
     (if logBufferOffset l > 0
      then l\<lparr>logBufferOffset := 0, persistent_lsn := lastLsn l, needFlush := False\<rparr>
      else l\<lparr>needFlush := False\<rparr>)"

definition Flush_force :: "LogManager \<Rightarrow> LogManager" where
  "Flush_force l = flush_thread_wakeup (l\<lparr>needFlush := True\<rparr>)"

text \<open>
  \<open>LRUReplacer\<close>: the linked list from the most recently inserted value to the least
  recently inserted one; the hash map of the source finds a value's node.
\<close>

definition replacer_Insert :: "nat \<Rightarrow> nat list \<Rightarrow> nat list" where
  "replacer_Insert v l = v # remove1 v l"

definition replacer_Victim :: "nat list \<Rightarrow> (nat \<times> nat list) option" where
  "replacer_Victim l = (if l = [] then None else Some (last l, butlast l))"

definition replacer_Erase :: "nat \<Rightarrow> nat list \<Rightarrow> bool \<times> nat list" where
  "replacer_Erase v l = (v \<in> set l, remove1 v l)"

definition replacer_Size :: "nat list \<Rightarrow> nat" where
  "replacer_Size l = length l"

text \<open>
  \<open>class BufferPoolManager\<close>. A \<open>Page *\<close> is the index of a frame of \<open>pages_\<close>
  (\<open>None\<close> for \<open>nullptr\<close>); the page table is the hash table from page ids to frames.
  \<open>log_manager_\<close> is null when logging is disabled; \<open>ENABLE_LOGGING\<close> is the global
  flag.
\<close>

record BufferPoolManager =
  pool_size :: nat
  pages :: "Page list"
  page_table :: "int \<rightharpoonup> nat"
  replacer :: "nat list"
  free_list :: "nat list"
  disk_manager :: DiskManager
  log_manager :: "LogManager option"
  ENABLE_LOGGING :: bool

text \<open>\<open>BufferPoolManager::GetVictimPage\<close>.\<close>

definition GetVictimPage :: "BufferPoolManager \<Rightarrow> error + (nat option \<times> BufferPoolManager)" where
  "GetVictimPage b =
     (if free_list b = [] then
        (case replacer_Victim (replacer b) of
           None \<Rightarrow> Inr (None, b)
         | Some (tar, r) \<Rightarrow>
             if pin_count (pages b ! tar) \<noteq> 0 then Inl AssertionFailed
             else Inr (Some tar, b\<lparr>replacer := r\<rparr>))
      else
        (let tar = hd (free_list b) in
         if page_id (pages b ! tar) \<noteq> INVALID_PAGE_ID then Inl AssertionFailed
         else if pin_count (pages b ! tar) \<noteq> 0 then Inl AssertionFailed
         else Inr (Some tar, b\<lparr>free_list := tl (free_list b)\<rparr>)))"

text \<open>The write-back of a dirty victim, shared by \<open>FetchPage\<close> and \<open>NewPage\<close>: the
  log is forced first when logging is enabled and the persistent sequence number is
  behind the page's.\<close>

definition write_back :: "BufferPoolManager \<Rightarrow> nat \<Rightarrow> error + BufferPoolManager" where
  "write_back b tar =
     (if is_dirty (pages b ! tar) then
        (if ENABLE_LOGGING b then
           (case log_manager b of
              None \<Rightarrow> Inl NullPointer
            | Some l \<Rightarrow>
                let l' = (if persistent_lsn l < GetLSN (pages b ! tar) then Flush_force l else l)
                in Inr (b\<lparr>log_manager := Some l',
                          disk_manager := WritePage (disk_manager b) (page_id (pages b ! tar))
                                            (data (pages b ! tar))\<rparr>))
         else Inr (b\<lparr>disk_manager := WritePage (disk_manager b) (page_id (pages b ! tar))
                                        (data (pages b ! tar))\<rparr>))
      else Inr b)"

text \<open>\<open>BufferPoolManager::FetchPage\<close>.\<close>

definition FetchPage :: "BufferPoolManager \<Rightarrow> int \<Rightarrow> error + (nat option \<times> BufferPoolManager)" where
  "FetchPage b pid =
     (case page_table b pid of
        Some tar \<Rightarrow>
          Inr (Some tar,
               b\<lparr>pages := (pages b)[tar := (pages b ! tar)\<lparr>pin_count := pin_count (pages b ! tar) + 1\<rparr>],
                 replacer := snd (replacer_Erase tar (replacer b))\<rparr>)
      | None \<Rightarrow>
          (case GetVictimPage b of
             Inl e \<Rightarrow> Inl e
           | Inr (None, b1) \<Rightarrow> Inr (None, b1)
           | Inr (Some tar, b1) \<Rightarrow>
               (case write_back b1 tar of
                  Inl e \<Rightarrow> Inl e
                | Inr b2 \<Rightarrow>
                    (case ReadPage (disk_manager b2) pid of
                       (dat, d) \<Rightarrow>
                         Inr (Some tar,
                              b2\<lparr>page_table := ((page_table b2)(page_id (pages b2 ! tar) := None))
                                                  (pid \<mapsto> tar),
                                 disk_manager := d,
                                 pages := (pages b2)[tar := \<lparr>page_id = pid, pin_count = 1,
                                                           is_dirty = False, data = dat\<rparr>]\<rparr>)))))"

text \<open>\<open>BufferPoolManager::UnpinPage\<close>.\<close>

definition UnpinPage :: "BufferPoolManager \<Rightarrow> int \<Rightarrow> bool \<Rightarrow> error + (bool \<times> BufferPoolManager)" where
  "UnpinPage b pid dirty =
     (case page_table b pid of
        None \<Rightarrow> Inr (False, b)
      | Some tar \<Rightarrow>
          let p = (pages b ! tar)\<lparr>is_dirty := (is_dirty (pages b ! tar) \<or> dirty)\<rparr> in
          if pin_count p \<le> 0 then Inl AssertionFailed
          else
            let p' = p\<lparr>pin_count := pin_count p - 1\<rparr>;
                b' = b\<lparr>pages := (pages b)[tar := p']\<rparr>
            in if pin_count p' = 0
               then Inr (True, b'\<lparr>replacer := replacer_Insert tar (replacer b)\<rparr>)
               else Inr (True, b'))"

text \<open>\<open>BufferPoolManager::FlushPage\<close>.\<close>

definition FlushPage :: "BufferPoolManager \<Rightarrow> int \<Rightarrow> bool \<times> BufferPoolManager" where
  "FlushPage b pid =
     (case page_table b pid of
        None \<Rightarrow> (False, b)
      | Some tar \<Rightarrow>
          if page_id (pages b ! tar) = INVALID_PAGE_ID then (False, b)
          else if is_dirty (pages b ! tar) then
            (True, b\<lparr>disk_manager := WritePage (disk_manager b) pid (data (pages b ! tar)),
                     pages := (pages b)[tar := (pages b ! tar)\<lparr>is_dirty := False\<rparr>]\<rparr>)
          else (True, b))"

text \<open>\<open>BufferPoolManager::DeletePage\<close>.\<close>

definition DeletePage :: "BufferPoolManager \<Rightarrow> int \<Rightarrow> bool \<times> BufferPoolManager" where
  "DeletePage b pid =
     (case page_table b pid of
        Some tar \<Rightarrow>
          if pin_count (pages b ! tar) > 0 then (False, b)
          else
            (True,
             b\<lparr>replacer := snd (replacer_Erase tar (replacer b)),
               page_table := (page_table b)(pid := None),
               pages := (pages b)[tar := (ResetMemory ((pages b ! tar)\<lparr>is_dirty := False\<rparr>))
                                           \<lparr>page_id := INVALID_PAGE_ID\<rparr>],
               free_list := free_list b @ [tar],
               disk_manager := DeallocatePage (disk_manager b) pid\<rparr>)
      | None \<Rightarrow> (True, b\<lparr>disk_manager := DeallocatePage (disk_manager b) pid\<rparr>))"

text \<open>\<open>BufferPoolManager::NewPage\<close>; the first component of the result is the page id
  written to the reference argument.\<close>

definition NewPage :: "BufferPoolManager \<Rightarrow> error + ((int \<times> nat) option \<times> BufferPoolManager)" where
  "NewPage b =
     (case GetVictimPage b of
        Inl e \<Rightarrow> Inl e
      | Inr (None, b1) \<Rightarrow> Inr (None, b1)
      | Inr (Some tar, b1) \<Rightarrow>
          (case AllocatePage (disk_manager b1) of
             (pid, d) \<Rightarrow>
               (case write_back (b1\<lparr>disk_manager := d\<rparr>) tar of
                  Inl e \<Rightarrow> Inl e
                | Inr b2 \<Rightarrow>
                    Inr (Some (pid, tar),
                         b2\<lparr>page_table := ((page_table b2)(page_id (pages b2 ! tar) := None))
                                             (pid \<mapsto> tar),
                            pages := (pages b2)[tar := \<lparr>page_id = pid, pin_count = 1,
                                                      is_dirty = False, data = zero_data\<rparr>]\<rparr>))))"

text \<open>\<open>BufferPoolManager::CheckAllUnpined\<close>: the loop, with its counter \<open>i\<close> and its
  result so far, and the call, which starts the counter at 1.\<close>

function CheckAllUnpined_loop :: "Page list \<Rightarrow> nat \<Rightarrow> nat \<Rightarrow> bool \<Rightarrow> bool" where
  "CheckAllUnpined_loop ps n i res =
     (if i < n
      then CheckAllUnpined_loop ps n (i + 1) (if pin_count (ps ! i) \<noteq> 0 then False else res)
      else res)"
  by pat_completeness auto
termination
  by (relation "measure (\<lambda>(ps, n, i, res). n - i)") auto

declare CheckAllUnpined_loop.simps [simp del]

definition CheckAllUnpined :: "BufferPoolManager \<Rightarrow> bool" where
  "CheckAllUnpined b = CheckAllUnpined_loop (pages b) (pool_size b) 1 True"


section \<open>B+tree pages (b\_plus\_tree\_leaf\_page.cpp, b\_plus\_tree\_internal\_page.cpp)\<close>

text \<open>
  Keys are compared as integers (\<open>GenericComparator\<close> on keys set from integers),
  values of leaves are record identifiers, values of internal pages are page ids. A
  page of the tree is the header of \<open>BPlusTreePage\<close> (read by \<open>GetPageType\<close>,
  \<open>GetSize\<close>, \<open>GetMaxSize\<close>, \<open>GetParentPageId\<close>, \<open>GetPageId\<close>), the
  \<open>next_page_id_\<close> of a leaf, and the \<open>array\<close> of pairs that follows the header in
  the page's bytes, seen as a leaf's or as an internal page's, indexed by a C++ int.
  Only the slots below the size hold entries; the others keep whatever was written
  there last.
\<close>

datatype IndexPageType = INVALID_INDEX_PAGE | LEAF_PAGE | INTERNAL_PAGE

record BPlusTreePage =
  PageType :: IndexPageType
  Size :: int
  MaxSize :: int
  ParentPageId :: int
  PageId :: int
  NextPageId :: int
  leaf_array :: "int \<Rightarrow> int \<times> RID"
  internal_array :: "int \<Rightarrow> int \<times> int"

definition comparator :: "int \<Rightarrow> int \<Rightarrow> int" where
  "comparator a b = (if a < b then -1 else if a = b then 0 else 1)"

definition IsLeafPage :: "BPlusTreePage \<Rightarrow> bool" where
  "IsLeafPage p = (PageType p = LEAF_PAGE)"

definition IsRootPage :: "BPlusTreePage \<Rightarrow> bool" where
  "IsRootPage p = (ParentPageId p = INVALID_PAGE_ID)"

definition IncreaseSize :: "BPlusTreePage \<Rightarrow> int \<Rightarrow> BPlusTreePage" where
  "IncreaseSize p amount = p\<lparr>Size := Size p + amount\<rparr>"

text \<open>
  Modelled from the spec: \<open>BPlusTreePage::GetMinSize\<close> (b\_plus\_tree\_page.cpp) is not
  among the sources. The spec gives \<open>min_size = \<lceil>max_size/2\<rceil>\<close> for the pages other
  than the root and relaxed rules for the root: a leaf root is adjusted when it is
  empty, an internal root when one child is left.
\<close>

definition GetMinSize :: "BPlusTreePage \<Rightarrow> int" where
  "GetMinSize p =
     (if IsRootPage p then (if IsLeafPage p then 1 else 2)
      else (MaxSize p + 1) div 2)"

text \<open>The entries of a page: the slots of its array below its size, in order.\<close>

definition slots :: "(int \<Rightarrow> 'a) \<Rightarrow> int \<Rightarrow> 'a list" where
  "slots a n = map (\<lambda>i. a (int i)) [0..<nat n]"

definition leaf_entries :: "BPlusTreePage \<Rightarrow> (int \<times> RID) list" where
  "leaf_entries p = slots (leaf_array p) (Size p)"

definition internal_entries :: "BPlusTreePage \<Rightarrow> (int \<times> int) list" where
  "internal_entries p = slots (internal_array p) (Size p)"

subsection \<open>Loops over the array\<close>

text \<open>\<open>for (i = from; i > idx; i--) array[i] = array[i - 1]\<close>.\<close>

function shift_up :: "(int \<Rightarrow> 'a) \<Rightarrow> int \<Rightarrow> int \<Rightarrow> int \<Rightarrow> 'a" where
  "shift_up a idx i = (if i > idx then shift_up (a(i := a (i - 1))) idx (i - 1) else a)"
  by pat_completeness auto
termination
  by (relation "measure (\<lambda>(a, idx, i). nat (i - idx))") auto

declare shift_up.simps [simp del]

text \<open>\<open>for (i = from; i < n; i++) array[i - 1] = array[i]\<close>.\<close>

function shift_down :: "(int \<Rightarrow> 'a) \<Rightarrow> int \<Rightarrow> int \<Rightarrow> int \<Rightarrow> 'a" where
  "shift_down a i n = (if i < n then shift_down (a(i - 1 := a i)) (i + 1) n else a)"
  by pat_completeness auto
termination
  by (relation "measure (\<lambda>(a, i, n). nat (n - i))") auto

declare shift_down.simps [simp del]

text \<open>\<open>for (i = from; i < n; i++) dst[i + off] = src[i]\<close>.\<close>

function copy_loop :: "(int \<Rightarrow> 'a) \<Rightarrow> (int \<Rightarrow> 'a) \<Rightarrow> int \<Rightarrow> int \<Rightarrow> int \<Rightarrow> int \<Rightarrow> 'a" where
  "copy_loop src dst off i n =
     (if i < n then copy_loop src (dst(i + off := src i)) off (i + 1) n else dst)"
  by pat_completeness auto
termination
  by (relation "measure (\<lambda>(src, dst, off, i, n). nat (n - i))") auto

declare copy_loop.simps [simp del]

text \<open>\<open>memmove(array + dst, array + src, n * sizeof(MappingType))\<close>: the \<open>n\<close> slots
  from \<open>src\<close> on, as they were before the call, land on the slots from \<open>dst\<close> on.\<close>

definition memmove :: "(int \<Rightarrow> 'a) \<Rightarrow> int \<Rightarrow> int \<Rightarrow> int \<Rightarrow> int \<Rightarrow> 'a" where
  "memmove a dst src n = (\<lambda>i. if dst \<le> i \<and> i < dst + n then a (i - dst + src) else a i)"

subsection \<open>Leaf pages\<close>

text \<open>\<open>BPlusTreeLeafPage::Init\<close>. The maximal size follows from the page size and the
  size of a pair, which the model takes as the parameter \<open>leaf_max\<close>.\<close>

definition leaf_Init :: "int \<Rightarrow> BPlusTreePage \<Rightarrow> int \<Rightarrow> int \<Rightarrow> BPlusTreePage" where
  "leaf_Init leaf_max p pid parent =
     p\<lparr>PageType := LEAF_PAGE, Size := 0, PageId := pid, ParentPageId := parent,
       NextPageId := INVALID_PAGE_ID, MaxSize := leaf_max\<rparr>"

text \<open>\<open>BPlusTreeLeafPage::KeyIndex\<close>: the binary search, and the call.\<close>

function KeyIndex_loop :: "(int \<Rightarrow> int \<times> RID) \<Rightarrow> int \<Rightarrow> int \<Rightarrow> int \<Rightarrow> int" where
  "KeyIndex_loop a key st ed =
     (if st \<le> ed then
        (let mid = (ed - st) div 2 + st in
         if comparator (fst (a mid)) key \<ge> 0 then KeyIndex_loop a key st (mid - 1)
         else KeyIndex_loop a key (mid + 1) ed)
      else ed + 1)"
  by pat_completeness auto
termination
  by (relation "measure (\<lambda>(a, key, st, ed). nat (ed - st + 1))") auto

declare KeyIndex_loop.simps [simp del]

definition KeyIndex :: "BPlusTreePage \<Rightarrow> int \<Rightarrow> error + int" where
  "KeyIndex p key =
     (if \<not> Size p \<ge> 0 then Inl AssertionFailed
      else Inr (KeyIndex_loop (leaf_array p) key 0 (Size p - 1)))"

text \<open>\<open>BPlusTreeLeafPage::KeyAt\<close> and \<open>GetItem\<close>.\<close>

definition leaf_KeyAt :: "BPlusTreePage \<Rightarrow> int \<Rightarrow> error + int" where
  "leaf_KeyAt p index =
     (if index \<ge> 0 \<and> index < Size p then Inr (fst (leaf_array p index)) else Inl AssertionFailed)"

definition GetItem :: "BPlusTreePage \<Rightarrow> int \<Rightarrow> error + (int \<times> RID)" where
  "GetItem p index =
     (if index \<ge> 0 \<and> index < Size p then Inr (leaf_array p index) else Inl AssertionFailed)"

text \<open>\<open>BPlusTreeLeafPage::Insert\<close>; the size after the insertion is the size of the page
  returned.\<close>

definition leaf_Insert :: "BPlusTreePage \<Rightarrow> int \<Rightarrow> RID \<Rightarrow> error + BPlusTreePage" where
  "leaf_Insert p key v =
     (case KeyIndex p key of
        Inl e \<Rightarrow> Inl e
      | Inr idx \<Rightarrow>
          if \<not> idx \<ge> 0 then Inl AssertionFailed
          else
            let p1 = IncreaseSize p 1;
                curSize = Size p1
            in Inr (p1\<lparr>leaf_array := (shift_up (leaf_array p1) idx (curSize - 1))(idx := (key, v))\<rparr>))"

text \<open>\<open>BPlusTreeLeafPage::MoveHalfTo\<close>: the page and the recipient after the call.\<close>

definition leaf_MoveHalfTo ::
  "BPlusTreePage \<Rightarrow> BPlusTreePage \<Rightarrow> error + (BPlusTreePage \<times> BPlusTreePage)" where
  "leaf_MoveHalfTo p recipient =
     (let total = MaxSize p + 1 in
      if Size p \<noteq> total then Inl AssertionFailed
      else
        let copyIdx = total div 2;
            r1 = recipient\<lparr>leaf_array :=
                   copy_loop (leaf_array p) (leaf_array recipient) (- copyIdx) copyIdx total\<rparr>;
            r2 = r1\<lparr>NextPageId := NextPageId p\<rparr>;
            p1 = p\<lparr>NextPageId := PageId r2\<rparr>;
            p2 = p1\<lparr>Size := copyIdx\<rparr>;
            r3 = r2\<lparr>Size := total - copyIdx\<rparr>
        in Inr (p2, r3))"

text \<open>\<open>BPlusTreeLeafPage::Lookup\<close>: the value found, if any.\<close>

definition leaf_Lookup :: "BPlusTreePage \<Rightarrow> int \<Rightarrow> error + RID option" where
  "leaf_Lookup p key =
     (case KeyIndex p key of
        Inl e \<Rightarrow> Inl e
      | Inr idx \<Rightarrow>
          if idx < Size p \<and> comparator (fst (leaf_array p idx)) key = 0
          then Inr (Some (snd (leaf_array p idx)))
          else Inr None)"

text \<open>\<open>BPlusTreeLeafPage::RemoveAndDeleteRecord\<close>; the size it returns is the size of
  the page returned.\<close>

definition RemoveAndDeleteRecord :: "BPlusTreePage \<Rightarrow> int \<Rightarrow> error + BPlusTreePage" where
  "RemoveAndDeleteRecord p key =
     (case KeyIndex p key of
        Inl e \<Rightarrow> Inl e
      | Inr idx \<Rightarrow>
          if idx \<ge> Size p then Inr p
          else
            (case leaf_KeyAt p idx of
               Inl e \<Rightarrow> Inl e
             | Inr k \<Rightarrow>
                 if comparator key k \<noteq> 0 then Inr p
                 else Inr (IncreaseSize
                             (p\<lparr>leaf_array := memmove (leaf_array p) idx (idx + 1) (Size p - idx - 1)\<rparr>)
                             (- 1))))"

text \<open>\<open>BPlusTreeLeafPage::MoveAllTo\<close>: the page and the recipient after the call.\<close>

definition leaf_MoveAllTo :: "BPlusTreePage \<Rightarrow> BPlusTreePage \<Rightarrow> BPlusTreePage \<times> BPlusTreePage" where
  "leaf_MoveAllTo p recipient =
     (let startIdx = Size recipient;
          r1 = recipient\<lparr>leaf_array :=
                 copy_loop (leaf_array p) (leaf_array recipient) startIdx 0 (Size p)\<rparr>;
          r2 = r1\<lparr>NextPageId := NextPageId p\<rparr>;
          r3 = IncreaseSize r2 (Size p)
      in (p\<lparr>Size := 0\<rparr>, r3))"

text \<open>\<open>BPlusTreeLeafPage::CopyLastFrom\<close>.\<close>

definition leaf_CopyLastFrom :: "BPlusTreePage \<Rightarrow> int \<times> RID \<Rightarrow> error + BPlusTreePage" where
  "leaf_CopyLastFrom p item =
     (if \<not> Size p + 1 \<le> MaxSize p then Inl AssertionFailed
      else Inr (IncreaseSize (p\<lparr>leaf_array := (leaf_array p)(Size p := item)\<rparr>) 1))"

subsection \<open>Internal pages\<close>

text \<open>\<open>BPlusTreeInternalPage::Init\<close>, with the maximal size as the parameter
  \<open>internal_max\<close>.\<close>

definition internal_Init :: "int \<Rightarrow> BPlusTreePage \<Rightarrow> int \<Rightarrow> int \<Rightarrow> BPlusTreePage" where
  "internal_Init internal_max p pid parent =
     p\<lparr>PageType := INTERNAL_PAGE, Size := 0, PageId := pid, ParentPageId := parent,
       MaxSize := internal_max\<rparr>"

text \<open>\<open>KeyAt\<close>, \<open>SetKeyAt\<close>, \<open>ValueAt\<close> of an internal page.\<close>

definition KeyAt :: "BPlusTreePage \<Rightarrow> int \<Rightarrow> error + int" where
  "KeyAt p index =
     (if index \<ge> 0 \<and> index < Size p then Inr (fst (internal_array p index))
      else Inl AssertionFailed)"

definition SetKeyAt :: "BPlusTreePage \<Rightarrow> int \<Rightarrow> int \<Rightarrow> error + BPlusTreePage" where
  "SetKeyAt p index key =
     (if index \<ge> 0 \<and> index < Size p
      then Inr (p\<lparr>internal_array := (internal_array p)(index := (key, snd (internal_array p index)))\<rparr>)
      else Inl AssertionFailed)"

definition ValueAt :: "BPlusTreePage \<Rightarrow> int \<Rightarrow> error + int" where
  "ValueAt p index =
     (if index \<ge> 0 \<and> index < Size p then Inr (snd (internal_array p index))
      else Inl AssertionFailed)"

text \<open>\<open>BPlusTreeInternalPage::ValueIndex\<close>: the loop, and the call.\<close>

function ValueIndex_loop :: "BPlusTreePage \<Rightarrow> int \<Rightarrow> int \<Rightarrow> int" where
  "ValueIndex_loop p v i =
     (if i < Size p then
        (if v \<noteq> snd (internal_array p i) then ValueIndex_loop p v (i + 1) else i)
      else - 1)"
  by pat_completeness auto
termination
  by (relation "measure (\<lambda>(p, v, i). nat (Size p - i))") auto

declare ValueIndex_loop.simps [simp del]

definition ValueIndex :: "BPlusTreePage \<Rightarrow> int \<Rightarrow> int" where
  "ValueIndex p v = ValueIndex_loop p v 0"

text \<open>\<open>BPlusTreeInternalPage::Lookup\<close>: the binary search from slot 1 on, and the
  call.\<close>

function internal_Lookup_loop :: "(int \<Rightarrow> int \<times> int) \<Rightarrow> int \<Rightarrow> int \<Rightarrow> int \<Rightarrow> int" where
  "internal_Lookup_loop a key st ed =
     (if st \<le> ed then
        (let mid = (ed - st) div 2 + st in
         if comparator (fst (a mid)) key \<le> 0 then internal_Lookup_loop a key (mid + 1) ed
         else internal_Lookup_loop a key st (mid - 1))
      else st)"
  by pat_completeness auto
termination
  by (relation "measure (\<lambda>(a, key, st, ed). nat (ed - st + 1))") auto

declare internal_Lookup_loop.simps [simp del]

definition internal_Lookup :: "BPlusTreePage \<Rightarrow> int \<Rightarrow> error + int" where
  "internal_Lookup p key =
     (if \<not> Size p > 1 then Inl AssertionFailed
      else Inr (snd (internal_array p
                  (internal_Lookup_loop (internal_array p) key 1 (Size p - 1) - 1))))"

text \<open>\<open>BPlusTreeInternalPage::PopulateNewRoot\<close>.\<close>

definition PopulateNewRoot :: "BPlusTreePage \<Rightarrow> int \<Rightarrow> int \<Rightarrow> int \<Rightarrow> BPlusTreePage" where
  "PopulateNewRoot p old_value new_key new_value =
     p\<lparr>internal_array := (internal_array p)
          (0 := (fst (internal_array p 0), old_value), 1 := (new_key, new_value)),
       Size := 2\<rparr>"

text \<open>\<open>BPlusTreeInternalPage::InsertNodeAfter\<close>.\<close>

definition InsertNodeAfter :: "BPlusTreePage \<Rightarrow> int \<Rightarrow> int \<Rightarrow> int \<Rightarrow> error + BPlusTreePage" where
  "InsertNodeAfter p old_value new_key new_value =
     (let idx = ValueIndex p old_value + 1 in
      if \<not> idx > 0 then Inl AssertionFailed
      else
        let p1 = IncreaseSize p 1;
            curSize = Size p1
        in Inr (p1\<lparr>internal_array :=
                      (shift_up (internal_array p1) idx (curSize - 1))(idx := (new_key, new_value))\<rparr>))"

text \<open>\<open>BPlusTreeInternalPage::Remove\<close>.\<close>

definition internal_Remove :: "BPlusTreePage \<Rightarrow> int \<Rightarrow> error + BPlusTreePage" where
  "internal_Remove p index =
     (if \<not> (index \<ge> 0 \<and> index < Size p) then Inl AssertionFailed
      else Inr (IncreaseSize
                  (p\<lparr>internal_array := shift_down (internal_array p) (index + 1) (Size p)\<rparr>) (- 1)))"

text \<open>\<open>BPlusTreeInternalPage::RemoveAndReturnOnlyChild\<close>.\<close>

definition RemoveAndReturnOnlyChild :: "BPlusTreePage \<Rightarrow> error + (int \<times> BPlusTreePage)" where
  "RemoveAndReturnOnlyChild p =
     (case ValueAt p 0 of
        Inl e \<Rightarrow> Inl e
      | Inr ret \<Rightarrow>
          let p1 = IncreaseSize p (- 1) in
          if Size p1 \<noteq> 0 then Inl AssertionFailed else Inr (ret, p1))"

text \<open>\<open>BPlusTreeInternalPage::CopyLastFrom\<close>.\<close>

definition internal_CopyLastFrom :: "BPlusTreePage \<Rightarrow> int \<times> int \<Rightarrow> error + BPlusTreePage" where
  "internal_CopyLastFrom p pair =
     (if \<not> Size p + 1 \<le> MaxSize p then Inl AssertionFailed
      else Inr (IncreaseSize (p\<lparr>internal_array := (internal_array p)(Size p := pair)\<rparr>) 1))"


section \<open>B+tree (b\_plus\_tree.cpp)\<close>

text \<open>
  The tree reaches its pages through the buffer pool, by page id. The model takes the
  pool at its interface: \<open>store\<close> holds the current contents of every page that has
  been allocated and not deleted, \<open>next_page_id\<close> is the disk manager's allocation
  counter, and a fetch always finds a frame (the pool is large enough). Page latches
  and pin counts serve the concurrent protocol and are left out. \<open>header_root\<close> is the
  root id recorded for the index in the header page, \<open>deleted_page_set\<close> the
  transaction's set of pages to delete, and \<open>leaf_max\<close> and \<open>internal_max\<close> the
  maximal sizes that the \<open>Init\<close> functions compute from the page layout.
\<close>

record BPlusTree =
  root_page_id :: int
  store :: "int \<rightharpoonup> BPlusTreePage"
  next_page_id :: int
  header_root :: "int option"
  deleted_page_set :: "int set"
  leaf_max :: int
  internal_max :: int

definition bind_err :: "error + 'a \<Rightarrow> ('a \<Rightarrow> error + 'b) \<Rightarrow> error + 'b" where
  "bind_err m f = (case m of Inl e \<Rightarrow> Inl e | Inr x \<Rightarrow> f x)"

text \<open>The bytes of a page that the pool hands out after \<open>ResetMemory\<close>.\<close>

definition zero_page :: BPlusTreePage where
  "zero_page = \<lparr>PageType = INVALID_INDEX_PAGE, Size = 0, MaxSize = 0, ParentPageId = 0,
                 PageId = 0, NextPageId = 0, leaf_array = (\<lambda>i. (0, (0, 0))),
                 internal_array = (\<lambda>i. (0, 0))\<rparr>"

text \<open>The pool's \<open>FetchPage\<close>, the write through the pointer it returned, \<open>NewPage\<close>
  and \<open>DeletePage\<close>, by page id.\<close>

definition fetch :: "BPlusTree \<Rightarrow> int \<Rightarrow> error + BPlusTreePage" where
  "fetch t pid = (case store t pid of None \<Rightarrow> Inl UnknownPage | Some p \<Rightarrow> Inr p)"

definition put :: "BPlusTree \<Rightarrow> int \<Rightarrow> BPlusTreePage \<Rightarrow> BPlusTree" where
  "put t pid p = t\<lparr>store := (store t)(pid \<mapsto> p)\<rparr>"

definition pool_NewPage :: "BPlusTree \<Rightarrow> int \<times> BPlusTree" where
  "pool_NewPage t =
     (next_page_id t,
      t\<lparr>next_page_id := next_page_id t + 1, store := (store t)(next_page_id t \<mapsto> zero_page)\<rparr>)"

definition pool_DeletePage :: "BPlusTree \<Rightarrow> int \<Rightarrow> BPlusTree" where
  "pool_DeletePage t pid = t\<lparr>store := (store t)(pid := None)\<rparr>"

definition SetParentPageId :: "BPlusTree \<Rightarrow> int \<Rightarrow> int \<Rightarrow> error + BPlusTree" where
  "SetParentPageId t pid parent =
     bind_err (fetch t pid) (\<lambda>p. Inr (put t pid (p\<lparr>ParentPageId := parent\<rparr>)))"

definition IsEmpty :: "BPlusTree \<Rightarrow> bool" where
  "IsEmpty t = (root_page_id t = INVALID_PAGE_ID)"

text \<open>\<open>BPlusTree::UpdateRootPageId\<close>: the header page records the root id.\<close>

definition UpdateRootPageId :: "BPlusTree \<Rightarrow> BPlusTree" where
  "UpdateRootPageId t = t\<lparr>header_root := Some (root_page_id t)\<rparr>"

text \<open>\<open>BPlusTree::FreePagesInTransaction\<close> at the end of an operation: the pages of
  the transaction's page set are unlatched and unpinned, and those in its deleted set
  are deleted.\<close>

definition FreePagesInTransaction :: "BPlusTree \<Rightarrow> BPlusTree" where
  "FreePagesInTransaction t =
     t\<lparr>store := (\<lambda>pid. if pid \<in> deleted_page_set t then None else store t pid),
       deleted_page_set := {}\<rparr>"

subsection \<open>Search\<close>

text \<open>\<open>BPlusTree::FindLeafPage\<close>: the descent from page \<open>cur\<close>, and the call. The
  result is the page id of the leaf, \<open>None\<close> for the null pointer of an empty tree.\<close>

partial_function (option) FindLeafPage_loop ::
  "BPlusTree \<Rightarrow> int \<Rightarrow> bool \<Rightarrow> int \<Rightarrow> (error + int) option" where
  "FindLeafPage_loop t key leftMost cur =
     (case fetch t cur of
        Inl e \<Rightarrow> Some (Inl e)
      | Inr pointer \<Rightarrow>
          if IsLeafPage pointer then Some (Inr cur)
          else
            (case (if leftMost then ValueAt pointer 0 else internal_Lookup pointer key) of
               Inl e \<Rightarrow> Some (Inl e)
             | Inr next \<Rightarrow> FindLeafPage_loop t key leftMost next))"

declare FindLeafPage_loop.simps [code]

definition FindLeafPage :: "BPlusTree \<Rightarrow> int \<Rightarrow> bool \<Rightarrow> (error + int option) option" where
  "FindLeafPage t key leftMost =
     (if IsEmpty t then Some (Inr None)
      else map_option (map_sum id Some) (FindLeafPage_loop t key leftMost (root_page_id t)))"

text \<open>\<open>BPlusTree::GetValue\<close>: the value found (the source's \<open>true\<close> and
  \<open>result[0]\<close>), or \<open>None\<close> for \<open>false\<close>.\<close>

definition GetValue :: "BPlusTree \<Rightarrow> int \<Rightarrow> (error + RID option) option" where
  "GetValue t key =
     (case FindLeafPage t key False of
        None \<Rightarrow> None
      | Some (Inl e) \<Rightarrow> Some (Inl e)
      | Some (Inr None) \<Rightarrow> Some (Inr None)
      | Some (Inr (Some tar)) \<Rightarrow> Some (bind_err (fetch t tar) (\<lambda>p. leaf_Lookup p key)))"

subsection \<open>Insertion\<close>

text \<open>\<open>BPlusTree::StartNewTree\<close>.\<close>

definition StartNewTree :: "BPlusTree \<Rightarrow> int \<Rightarrow> RID \<Rightarrow> error + BPlusTree" where
  "StartNewTree t key v =
     (case pool_NewPage t of
        (newPageId, t1) \<Rightarrow>
          bind_err (fetch t1 newPageId) (\<lambda>rootPage.
            let root = leaf_Init (leaf_max t1) rootPage newPageId INVALID_PAGE_ID;
                t2 = UpdateRootPageId ((put t1 newPageId root)\<lparr>root_page_id := newPageId\<rparr>)
            in bind_err (leaf_Insert root key v) (\<lambda>root'. Inr (put t2 newPageId root'))))"

text \<open>One step of the loops of the internal page's \<open>MoveHalfTo\<close> and \<open>MoveAllTo\<close>: slot
  \<open>src\<close> of page \<open>this\<close> is copied to slot \<open>dst\<close> of the recipient, and the child it
  points to gets the recipient as parent.\<close>

definition move_entry :: "BPlusTree \<Rightarrow> int \<Rightarrow> int \<Rightarrow> int \<Rightarrow> int \<Rightarrow> int \<Rightarrow> error + BPlusTree" where
  "move_entry t this rcp recipPageId dst src =
     bind_err (fetch t this) (\<lambda>p.
     bind_err (fetch t rcp) (\<lambda>r.
       let t1 = put t rcp (r\<lparr>internal_array := (internal_array r)(dst := internal_array p src)\<rparr>)
       in bind_err (fetch t1 this) (\<lambda>p1.
            SetParentPageId t1 (snd (internal_array p1 src)) recipPageId)))"

function move_entries ::
  "BPlusTree \<Rightarrow> int \<Rightarrow> int \<Rightarrow> int \<Rightarrow> int \<Rightarrow> int \<Rightarrow> int \<Rightarrow> error + BPlusTree" where
  "move_entries t this rcp recipPageId off i n =
     (if i < n then
        (case move_entry t this rcp recipPageId (i + off) i of
           Inl e \<Rightarrow> Inl e
         | Inr t' \<Rightarrow> move_entries t' this rcp recipPageId off (i + 1) n)
      else Inr t)"
  by pat_completeness auto
termination
  by (relation "measure (\<lambda>(t, this, rcp, recipPageId, off, i, n). nat (n - i))") auto

declare move_entries.simps [simp del]

text \<open>\<open>BPlusTreeInternalPage::MoveHalfTo\<close>, on the pages \<open>this\<close> and \<open>rcp\<close> of the
  pool.\<close>

definition internal_MoveHalfTo :: "BPlusTree \<Rightarrow> int \<Rightarrow> int \<Rightarrow> error + BPlusTree" where
  "internal_MoveHalfTo t this rcp =
     bind_err (fetch t this) (\<lambda>p.
       let total = MaxSize p + 1 in
       if Size p \<noteq> total then Inl AssertionFailed
       else
         let copyIdx = total div 2 in
         bind_err (fetch t rcp) (\<lambda>r.
         bind_err (move_entries t this rcp (PageId r) (- copyIdx) copyIdx total) (\<lambda>t1.
         bind_err (fetch t1 this) (\<lambda>p1.
           let t2 = put t1 this (p1\<lparr>Size := copyIdx\<rparr>) in
           bind_err (fetch t2 rcp) (\<lambda>r1.
             Inr (put t2 rcp (r1\<lparr>Size := total - copyIdx\<rparr>)))))))"

text \<open>\<open>BPlusTree::Split\<close>, for a leaf (\<open>N = LEAF_PAGE\<close>) or an internal page: the
  tree and the id of the new page.\<close>

definition Split :: "IndexPageType \<Rightarrow> BPlusTree \<Rightarrow> int \<Rightarrow> error + (BPlusTree \<times> int)" where
  "Split N t node =
     (case pool_NewPage t of
        (newPageId, t1) \<Rightarrow>
          bind_err (fetch t1 newPageId) (\<lambda>newPage.
          bind_err (fetch t1 node) (\<lambda>p.
            if N = LEAF_PAGE then
              bind_err (leaf_MoveHalfTo p (leaf_Init (leaf_max t1) newPage newPageId (ParentPageId p)))
                (\<lambda>(p', newNode). Inr (put (put t1 newPageId newNode) node p', newPageId))
            else
              bind_err (internal_MoveHalfTo
                          (put t1 newPageId
                             (internal_Init (internal_max t1) newPage newPageId (ParentPageId p)))
                          node newPageId)
                (\<lambda>t2. Inr (t2, newPageId)))))"

text \<open>\<open>BPlusTree::InsertIntoParent\<close>: the branch that makes a new root, the insertion
  into the parent page, and the function, which recurses when the parent overflows.
  Nodes are given by their page ids.\<close>

definition new_root :: "BPlusTree \<Rightarrow> int \<Rightarrow> int \<Rightarrow> int \<Rightarrow> error + BPlusTree" where
  "new_root t old_node key new_node =
     (case pool_NewPage t of
        (rootId, t0) \<Rightarrow>
          let t1 = t0\<lparr>root_page_id := rootId\<rparr> in
          bind_err (fetch t1 rootId) (\<lambda>newPage.
          bind_err (fetch t1 old_node) (\<lambda>old.
          bind_err (fetch t1 new_node) (\<lambda>new.
            let newRoot = PopulateNewRoot
                            (internal_Init (internal_max t1) newPage (root_page_id t1) INVALID_PAGE_ID)
                            (PageId old) key (PageId new);
                t2 = put t1 rootId newRoot
            in bind_err (SetParentPageId t2 old_node (root_page_id t2)) (\<lambda>t3.
               bind_err (SetParentPageId t3 new_node (root_page_id t3)) (\<lambda>t4.
                 Inr (UpdateRootPageId t4)))))))"

definition insert_in_parent :: "BPlusTree \<Rightarrow> int \<Rightarrow> int \<Rightarrow> int \<Rightarrow> error + (BPlusTree \<times> int)" where
  "insert_in_parent t old_node key new_node =
     bind_err (fetch t old_node) (\<lambda>old.
       let parentId = ParentPageId old in
       bind_err (fetch t parentId) (\<lambda>page.
       bind_err (SetParentPageId t new_node parentId) (\<lambda>t1.
       bind_err (fetch t1 parentId) (\<lambda>parent.
       bind_err (fetch t1 old_node) (\<lambda>old1.
       bind_err (fetch t1 new_node) (\<lambda>new1.
       bind_err (InsertNodeAfter parent (PageId old1) key (PageId new1)) (\<lambda>parent'.
         Inr (put t1 parentId parent', parentId))))))))"

partial_function (option) InsertIntoParent ::
  "BPlusTree \<Rightarrow> int \<Rightarrow> int \<Rightarrow> int \<Rightarrow> (error + BPlusTree) option" where
  "InsertIntoParent t old_node key new_node =
     (case fetch t old_node of
        Inl e \<Rightarrow> Some (Inl e)
      | Inr old \<Rightarrow>
          if IsRootPage old then Some (new_root t old_node key new_node)
          else
            (case insert_in_parent t old_node key new_node of
               Inl e \<Rightarrow> Some (Inl e)
             | Inr (t1, parentId) \<Rightarrow>
                 (case fetch t1 parentId of
                    Inl e \<Rightarrow> Some (Inl e)
                  | Inr parent \<Rightarrow>
                      if Size parent > MaxSize parent then
                        (case Split INTERNAL_PAGE t1 parentId of
                           Inl e \<Rightarrow> Some (Inl e)
                         | Inr (t2, newPage) \<Rightarrow>
                             (case bind_err (fetch t2 newPage) (\<lambda>n. KeyAt n 0) of
                                Inl e \<Rightarrow> Some (Inl e)
                              | Inr key' \<Rightarrow> InsertIntoParent t2 parentId key' newPage))
                      else Some (Inr t1))))"

declare InsertIntoParent.simps [code]

text \<open>\<open>BPlusTree::InsertIntoLeaf\<close> and \<open>BPlusTree::Insert\<close>: the boolean returned and
  the tree afterwards.\<close>

definition InsertIntoLeaf :: "BPlusTree \<Rightarrow> int \<Rightarrow> RID \<Rightarrow> (error + bool \<times> BPlusTree) option" where
  "InsertIntoLeaf t key v =
     (case FindLeafPage t key False of
        None \<Rightarrow> None
      | Some (Inl e) \<Rightarrow> Some (Inl e)
      | Some (Inr None) \<Rightarrow> Some (Inl NullPointer)
      | Some (Inr (Some leaf)) \<Rightarrow>
          (case bind_err (fetch t leaf) (\<lambda>leafPage.
                bind_err (leaf_Lookup leafPage key) (\<lambda>found. Inr (leafPage, found))) of
             Inl e \<Rightarrow> Some (Inl e)
           | Inr (leafPage, Some w) \<Rightarrow> Some (Inr (False, FreePagesInTransaction t))
           | Inr (leafPage, None) \<Rightarrow>
               (case leaf_Insert leafPage key v of
                  Inl e \<Rightarrow> Some (Inl e)
                | Inr leafPage' \<Rightarrow>
                    let t1 = put t leaf leafPage' in
                    if Size leafPage' > MaxSize leafPage' then
                      (case Split LEAF_PAGE t1 leaf of
                         Inl e \<Rightarrow> Some (Inl e)
                       | Inr (t2, newLeaf) \<Rightarrow>
                           (case bind_err (fetch t2 newLeaf) (\<lambda>n. leaf_KeyAt n 0) of
                              Inl e \<Rightarrow> Some (Inl e)
                            | Inr key' \<Rightarrow>
                                map_option (map_sum id (\<lambda>t3. (True, FreePagesInTransaction t3)))
                                  (InsertIntoParent t2 leaf key' newLeaf)))
                    else Some (Inr (True, FreePagesInTransaction t1)))))"

definition Insert :: "BPlusTree \<Rightarrow> int \<Rightarrow> RID \<Rightarrow> (error + bool \<times> BPlusTree) option" where
  "Insert t key v =
     (if IsEmpty t then Some (map_sum id (\<lambda>t'. (True, t')) (StartNewTree t key v))
      else InsertIntoLeaf t key v)"


subsection \<open>Removal\<close>

text \<open>The redistribution functions of the leaf page, on the pages \<open>this\<close> and \<open>rcp\<close>
  of the pool: \<open>MoveFirstToEndOf\<close>, \<open>CopyFirstFrom\<close> and \<open>MoveLastToFrontOf\<close>.\<close>

definition leaf_MoveFirstToEndOf :: "BPlusTree \<Rightarrow> int \<Rightarrow> int \<Rightarrow> error + BPlusTree" where
  "leaf_MoveFirstToEndOf t this rcp =
     bind_err (fetch t this) (\<lambda>p.
     bind_err (GetItem p 0) (\<lambda>pair.
       let p1 = IncreaseSize p (- 1);
           t1 = put t this (p1\<lparr>leaf_array := memmove (leaf_array p1) 0 1 (Size p1)\<rparr>)
       in bind_err (fetch t1 rcp) (\<lambda>r.
          bind_err (leaf_CopyLastFrom r pair) (\<lambda>r'.
            let t2 = put t1 rcp r' in
            bind_err (fetch t2 this) (\<lambda>p3.
            bind_err (fetch t2 (ParentPageId p3)) (\<lambda>parent.
            bind_err (SetKeyAt parent (ValueIndex parent (PageId p3)) (fst (leaf_array p3 0)))
              (\<lambda>parent'. Inr (put t2 (ParentPageId p3) parent'))))))))"

definition leaf_CopyFirstFrom :: "BPlusTree \<Rightarrow> int \<Rightarrow> int \<times> RID \<Rightarrow> int \<Rightarrow> error + BPlusTree" where
  "leaf_CopyFirstFrom t rcp item parentIndex =
     bind_err (fetch t rcp) (\<lambda>r.
       if \<not> Size r + 1 < MaxSize r then Inl AssertionFailed
       else
         let r1 = IncreaseSize (r\<lparr>leaf_array := memmove (leaf_array r) 1 0 (Size r)\<rparr>) 1;
             r2 = r1\<lparr>leaf_array := (leaf_array r1)(0 := item)\<rparr>;
             t1 = put t rcp r2
         in bind_err (fetch t1 (ParentPageId r2)) (\<lambda>parent.
            bind_err (SetKeyAt parent parentIndex (fst (leaf_array r2 0)))
              (\<lambda>parent'. Inr (put t1 (ParentPageId r2) parent'))))"

definition leaf_MoveLastToFrontOf :: "BPlusTree \<Rightarrow> int \<Rightarrow> int \<Rightarrow> int \<Rightarrow> error + BPlusTree" where
  "leaf_MoveLastToFrontOf t this rcp parentIndex =
     bind_err (fetch t this) (\<lambda>p.
     bind_err (GetItem p (Size p - 1)) (\<lambda>pair.
       leaf_CopyFirstFrom (put t this (IncreaseSize p (- 1))) rcp pair parentIndex))"

text \<open>The same functions of the internal page; the child that changes sides gets its
  new parent.\<close>

definition internal_MoveFirstToEndOf :: "BPlusTree \<Rightarrow> int \<Rightarrow> int \<Rightarrow> error + BPlusTree" where
  "internal_MoveFirstToEndOf t this rcp =
     bind_err (fetch t this) (\<lambda>p.
     bind_err (KeyAt p 0) (\<lambda>k.
     bind_err (ValueAt p 0) (\<lambda>v.
       let p1 = IncreaseSize p (- 1);
           t1 = put t this (p1\<lparr>internal_array := memmove (internal_array p1) 0 1 (Size p1)\<rparr>)
       in bind_err (fetch t1 rcp) (\<lambda>r.
          bind_err (internal_CopyLastFrom r (k, v)) (\<lambda>r'.
            let t2 = put t1 rcp r' in
            bind_err (SetParentPageId t2 v (PageId r')) (\<lambda>t3.
            bind_err (fetch t3 this) (\<lambda>p3.
            bind_err (fetch t3 (ParentPageId p3)) (\<lambda>parent.
            bind_err (SetKeyAt parent (ValueIndex parent (PageId p3)) (fst (internal_array p3 0)))
              (\<lambda>parent'. Inr (put t3 (ParentPageId p3) parent'))))))))))"

definition internal_CopyFirstFrom :: "BPlusTree \<Rightarrow> int \<Rightarrow> int \<times> int \<Rightarrow> int \<Rightarrow> error + BPlusTree" where
  "internal_CopyFirstFrom t rcp pair parent_index =
     bind_err (fetch t rcp) (\<lambda>r.
       if \<not> Size r + 1 < MaxSize r then Inl AssertionFailed
       else
         let r1 = IncreaseSize (r\<lparr>internal_array := memmove (internal_array r) 1 0 (Size r)\<rparr>) 1;
             r2 = r1\<lparr>internal_array := (internal_array r1)(0 := pair)\<rparr>;
             t1 = put t rcp r2
         in bind_err (SetParentPageId t1 (snd pair) (PageId r2)) (\<lambda>t2.
            bind_err (fetch t2 rcp) (\<lambda>r3.
            bind_err (fetch t2 (ParentPageId r3)) (\<lambda>parent.
            bind_err (SetKeyAt parent parent_index (fst (internal_array r3 0)))
              (\<lambda>parent'. Inr (put t2 (ParentPageId r3) parent'))))))"

definition internal_MoveLastToFrontOf :: "BPlusTree \<Rightarrow> int \<Rightarrow> int \<Rightarrow> int \<Rightarrow> error + BPlusTree" where
  "internal_MoveLastToFrontOf t this rcp parent_index =
     bind_err (fetch t this) (\<lambda>p.
     bind_err (KeyAt p (Size p - 1)) (\<lambda>k.
     bind_err (ValueAt p (Size p - 1)) (\<lambda>v.
       internal_CopyFirstFrom (put t this (IncreaseSize p (- 1))) rcp (k, v) parent_index)))"

text \<open>\<open>BPlusTreeInternalPage::MoveAllTo\<close>, on the pages \<open>this\<close> and \<open>rcp\<close> of the
  pool.\<close>

definition internal_MoveAllTo :: "BPlusTree \<Rightarrow> int \<Rightarrow> int \<Rightarrow> int \<Rightarrow> error + BPlusTree" where
  "internal_MoveAllTo t this rcp index_in_parent =
     bind_err (fetch t rcp) (\<lambda>r.
       let start = Size r; recipPageId = PageId r in
       bind_err (fetch t this) (\<lambda>p.
       bind_err (fetch t (ParentPageId p)) (\<lambda>parent.
       bind_err (KeyAt parent index_in_parent) (\<lambda>k.
       bind_err (SetKeyAt p 0 k) (\<lambda>p1.
         let t1 = put t this p1 in
         bind_err (move_entries t1 this rcp recipPageId start 0 (Size p1)) (\<lambda>t2.
         bind_err (fetch t2 rcp) (\<lambda>r2.
         bind_err (fetch t2 this) (\<lambda>p2.
           let r3 = r2\<lparr>Size := start + Size p2\<rparr> in
           if \<not> Size r3 \<le> MaxSize p2 then Inl AssertionFailed
           else Inr (put (put t2 rcp r3) this (p2\<lparr>Size := 0\<rparr>))))))))))"

text \<open>\<open>BPlusTree::AdjustRoot\<close>: whether the old root is to be deleted, and the tree.\<close>

definition AdjustRoot :: "BPlusTree \<Rightarrow> int \<Rightarrow> error + (bool \<times> BPlusTree)" where
  "AdjustRoot t old_root_node =
     bind_err (fetch t old_root_node) (\<lambda>r.
       if IsLeafPage r then
         (if Size r \<noteq> 0 then Inl AssertionFailed
          else if ParentPageId r \<noteq> INVALID_PAGE_ID then Inl AssertionFailed
          else Inr (True, UpdateRootPageId (t\<lparr>root_page_id := INVALID_PAGE_ID\<rparr>)))
       else if Size r = 1 then
         bind_err (RemoveAndReturnOnlyChild r) (\<lambda>(newRootId, r').
           let t1 = UpdateRootPageId ((put t old_root_node r')\<lparr>root_page_id := newRootId\<rparr>)
           in bind_err (SetParentPageId t1 newRootId INVALID_PAGE_ID) (\<lambda>t2. Inr (True, t2)))
       else Inr (False, t))"

text \<open>\<open>BPlusTree::FindLeftSibling\<close>: the sibling's page id, and whether it is the
  right sibling.\<close>

definition FindLeftSibling :: "BPlusTree \<Rightarrow> int \<Rightarrow> error + (int \<times> bool)" where
  "FindLeftSibling t node =
     bind_err (fetch t node) (\<lambda>n.
     bind_err (fetch t (ParentPageId n)) (\<lambda>parent.
       let index = ValueIndex parent (PageId n);
           siblingIndex = (if index = 0 then index + 1 else index - 1)
       in bind_err (ValueAt parent siblingIndex) (\<lambda>sibling.
          bind_err (fetch t sibling) (\<lambda>s. Inr (sibling, index = 0)))))"

text \<open>\<open>BPlusTree::Coalesce\<close> up to its last statement: the tree after the move, and
  whether \<open>parent->GetSize() <= parent->GetMinSize()\<close>, on which the source calls
  \<open>CoalesceOrRedistribute\<close> for the parent.\<close>

definition Coalesce ::
  "IndexPageType \<Rightarrow> BPlusTree \<Rightarrow> int \<Rightarrow> int \<Rightarrow> int \<Rightarrow> int \<Rightarrow> error + (BPlusTree \<times> bool)" where
  "Coalesce N t neighbor_node node parent index =
     bind_err (fetch t node) (\<lambda>n.
     bind_err (fetch t neighbor_node) (\<lambda>nb.
       if \<not> Size n + Size nb \<le> MaxSize n then Inl AssertionFailed
       else
         bind_err (if N = LEAF_PAGE then
                     (case leaf_MoveAllTo n nb of
                        (n', nb') \<Rightarrow> Inr (put (put t neighbor_node nb') node n'))
                   else internal_MoveAllTo t node neighbor_node index) (\<lambda>t1.
         bind_err (fetch t1 node) (\<lambda>n1.
           let t2 = t1\<lparr>deleted_page_set := insert (PageId n1) (deleted_page_set t1)\<rparr> in
           bind_err (fetch t2 parent) (\<lambda>par.
           bind_err (internal_Remove par index) (\<lambda>par'.
             Inr (put t2 parent par', Size par' \<le> GetMinSize par')))))))"

text \<open>\<open>BPlusTree::Redistribute\<close>.\<close>

definition Redistribute :: "IndexPageType \<Rightarrow> BPlusTree \<Rightarrow> int \<Rightarrow> int \<Rightarrow> int \<Rightarrow> error + BPlusTree" where
  "Redistribute N t neighbor_node node index =
     (if index = 0 then
        (if N = LEAF_PAGE then leaf_MoveFirstToEndOf t neighbor_node node
         else internal_MoveFirstToEndOf t neighbor_node node)
      else
        (if N = LEAF_PAGE then leaf_MoveLastToFrontOf t neighbor_node node index
         else internal_MoveLastToFrontOf t neighbor_node node index))"

text \<open>\<open>BPlusTree::CoalesceOrRedistribute\<close>: the part before the choice between
  coalescing and redistributing (the sibling, whether it is the right one, the parent
  and whether the two pages fit in one), and the function.\<close>

definition siblings :: "BPlusTree \<Rightarrow> int \<Rightarrow> error + (int \<times> bool \<times> int \<times> bool)" where
  "siblings t node =
     bind_err (FindLeftSibling t node) (\<lambda>(node2, isRightSib).
     bind_err (fetch t node) (\<lambda>n.
     bind_err (fetch t (ParentPageId n)) (\<lambda>parent.
     bind_err (fetch t node2) (\<lambda>n2.
       Inr (node2, isRightSib, ParentPageId n, Size n + Size n2 \<le> MaxSize n)))))"

partial_function (option) CoalesceOrRedistribute ::
  "IndexPageType \<Rightarrow> BPlusTree \<Rightarrow> int \<Rightarrow> (error + bool \<times> BPlusTree) option" where
  "CoalesceOrRedistribute N t node =
     (case fetch t node of
        Inl e \<Rightarrow> Some (Inl e)
      | Inr n \<Rightarrow>
          if IsRootPage n then
            Some (bind_err (AdjustRoot t node) (\<lambda>(delOldRoot, t1).
                    if delOldRoot then
                      bind_err (fetch t1 node) (\<lambda>n1.
                        Inr (True, t1\<lparr>deleted_page_set := insert (PageId n1) (deleted_page_set t1)\<rparr>))
                    else Inr (False, t1)))
          else
            (case siblings t node of
               Inl e \<Rightarrow> Some (Inl e)
             | Inr (node2, isRightSib, parentPage, fits) \<Rightarrow>
                 if fits then
                   (case bind_err (fetch t parentPage) (\<lambda>par.
                         bind_err (fetch t (if isRightSib then node2 else node)) (\<lambda>right.
                           Coalesce N t (if isRightSib then node else node2)
                             (if isRightSib then node2 else node) parentPage
                             (ValueIndex par (PageId right)))) of
                      Inl e \<Rightarrow> Some (Inl e)
                    | Inr (t1, recurse) \<Rightarrow>
                        if recurse then
                          Option.bind (CoalesceOrRedistribute INTERNAL_PAGE t1 parentPage)
                            (\<lambda>r. Some (map_sum id (\<lambda>(b, t2). (True, t2)) r))
                        else Some (Inr (True, t1)))
                 else
                   Some (bind_err (fetch t parentPage) (\<lambda>par.
                         bind_err (fetch t node) (\<lambda>n0.
                         bind_err (Redistribute N t node2 node (ValueIndex par (PageId n0)))
                           (\<lambda>t1. Inr (False, t1)))))))"

declare CoalesceOrRedistribute.simps [code]

text \<open>\<open>BPlusTree::Remove\<close>.\<close>

definition Remove :: "BPlusTree \<Rightarrow> int \<Rightarrow> (error + BPlusTree) option" where
  "Remove t key =
     (if IsEmpty t then Some (Inr t)
      else
        (case FindLeafPage t key False of
           None \<Rightarrow> None
         | Some (Inl e) \<Rightarrow> Some (Inl e)
         | Some (Inr None) \<Rightarrow> Some (Inl NullPointer)
         | Some (Inr (Some delTar)) \<Rightarrow>
             (case bind_err (fetch t delTar) (\<lambda>p. RemoveAndDeleteRecord p key) of
                Inl e \<Rightarrow> Some (Inl e)
              | Inr p' \<Rightarrow>
                  let t1 = put t delTar p' in
                  if Size p' < GetMinSize p' then
                    map_option (map_sum id (\<lambda>(b, t2). FreePagesInTransaction t2))
                      (CoalesceOrRedistribute LEAF_PAGE t1 delTar)
                  else Some (Inr (FreePagesInTransaction t1)))))"

section \<open>Notions used in the properties of the B+tree\<close>

text \<open>The pages whose ids are in \<open>C\<close> get the parent \<open>R\<close>: what the loops of the
  internal page's \<open>MoveHalfTo\<close> and \<open>MoveAllTo\<close> do to the children they move.\<close>

definition reparent :: "int \<Rightarrow> int set \<Rightarrow> (int \<rightharpoonup> BPlusTreePage) \<Rightarrow> (int \<rightharpoonup> BPlusTreePage)" where
  "reparent R C s = (\<lambda>x. if x \<in> C then map_option (\<lambda>c. c\<lparr>ParentPageId := R\<rparr>) (s x) else s x)"


section \<open>States used in the examples\<close>

text \<open>One transaction holds the exclusive lock on a record.\<close>

definition held_by_1 :: LockManager where
  "held_by_1 = \<lparr>strict_2PL = True,
      lockTable = [(3, 0) \<mapsto> \<lparr>locks = [\<lparr>tid = 1, mode = EXCLUSIVE, granted = True\<rparr>],
                               hasUpgrading = False\<rparr>]\<rparr>"

definition fresh_txn :: "int \<Rightarrow> Transaction" where
  "fresh_txn i = \<lparr>txn_id = i, state = GROWING, shared_lock_set = {}, exclusive_lock_set = {}\<rparr>"

text \<open>Transaction 9 holds the exclusive lock and has committed; two shared requests, an
  upgrade and another shared request wait behind it.\<close>

definition queue_9 :: LockManager where
  "queue_9 = \<lparr>strict_2PL = True,
      lockTable = [(3, 0) \<mapsto> \<lparr>locks =
         [\<lparr>tid = 9, mode = EXCLUSIVE, granted = True\<rparr>,
          \<lparr>tid = 3, mode = SHARED, granted = False\<rparr>,
          \<lparr>tid = 2, mode = SHARED, granted = False\<rparr>,
          \<lparr>tid = 1, mode = UPGRADING, granted = False\<rparr>,
          \<lparr>tid = 0, mode = SHARED, granted = False\<rparr>], hasUpgrading = True\<rparr>]\<rparr>"

definition done_9 :: Transaction where
  "done_9 = \<lparr>txn_id = 9, state = COMMITTED, shared_lock_set = {}, exclusive_lock_set = {(3, 0)}\<rparr>"

text \<open>Transactions 5 and 4 hold shared locks, transaction 3 waits for the exclusive
  lock.\<close>

definition readers_5_4 :: LockManager where
  "readers_5_4 = \<lparr>strict_2PL = False,
      lockTable = [(7, 0) \<mapsto> \<lparr>locks =
         [\<lparr>tid = 5, mode = SHARED, granted = True\<rparr>,
          \<lparr>tid = 4, mode = SHARED, granted = True\<rparr>,
          \<lparr>tid = 3, mode = EXCLUSIVE, granted = False\<rparr>], hasUpgrading = False\<rparr>]\<rparr>"

definition reader_5 :: Transaction where
  "reader_5 = \<lparr>txn_id = 5, state = GROWING, shared_lock_set = {(7, 0)}, exclusive_lock_set = {}\<rparr>"

text \<open>Transactions 5 and 3 hold shared locks.\<close>

definition readers_5_3 :: LockManager where
  "readers_5_3 = \<lparr>strict_2PL = True,
      lockTable = [(7, 0) \<mapsto> \<lparr>locks =
         [\<lparr>tid = 5, mode = SHARED, granted = True\<rparr>,
          \<lparr>tid = 3, mode = SHARED, granted = True\<rparr>], hasUpgrading = False\<rparr>]\<rparr>"

text \<open>A pool of two frames: page 3 in frame 0, dirty, with sequence number 7, and page 4
  in frame 1, with the given pin counts. Logging is enabled and the log is persistent up
  to sequence number 5.\<close>

definition no_disk :: DiskManager where
  "no_disk = \<lparr>db_file = (\<lambda>pid. zero_data), disk_next_page_id = 5, calls = []\<rparr>"

definition two_frames :: "int \<Rightarrow> int \<Rightarrow> BufferPoolManager" where
  "two_frames pins0 pins1 =
     \<lparr>pool_size = 2,
      pages = [\<lparr>page_id = 3, pin_count = pins0, is_dirty = True,
                data = \<lparr>page_lsn = 7, payload = [1, 2]\<rparr>\<rparr>,
               \<lparr>page_id = 4, pin_count = pins1, is_dirty = False, data = zero_data\<rparr>],
      page_table = [3 \<mapsto> 0, 4 \<mapsto> 1],
      replacer = (if pins0 = 0 then [0] else []) @ (if pins1 = 0 then [1] else []),
      free_list = [],
      disk_manager = no_disk,
      log_manager = Some \<lparr>persistent_lsn = 5, lastLsn = 7, logBufferOffset = 40, needFlush = False\<rparr>,
      ENABLE_LOGGING = True\<rparr>"

text \<open>A leaf page and an internal page with the given entries.\<close>

definition leaf_of :: "int \<Rightarrow> int \<Rightarrow> int \<Rightarrow> int \<Rightarrow> (int \<times> RID) list \<Rightarrow> BPlusTreePage" where
  "leaf_of pid parent next mx es =
     \<lparr>PageType = LEAF_PAGE, Size = int (length es), MaxSize = mx, ParentPageId = parent,
      PageId = pid, NextPageId = next,
      leaf_array = (\<lambda>i. if 0 \<le> i \<and> i < int (length es) then es ! nat i else (0, (0, 0))),
      internal_array = (\<lambda>i. (0, 0))\<rparr>"

definition internal_of :: "int \<Rightarrow> int \<Rightarrow> int \<Rightarrow> (int \<times> int) list \<Rightarrow> BPlusTreePage" where
  "internal_of pid parent mx es =
     \<lparr>PageType = INTERNAL_PAGE, Size = int (length es), MaxSize = mx, ParentPageId = parent,
      PageId = pid, NextPageId = 0,
      leaf_array = (\<lambda>i. (0, (0, 0))),
      internal_array = (\<lambda>i. if 0 \<le> i \<and> i < int (length es) then es ! nat i else (0, 0))\<rparr>"

text \<open>A tree whose root is a leaf with the key 5.\<close>

definition one_leaf :: BPlusTree where
  "one_leaf = \<lparr>root_page_id = 1,
               store = [1 \<mapsto> leaf_of 1 INVALID_PAGE_ID INVALID_PAGE_ID 3 [(5, (0, 0))]],
               next_page_id = 2, header_root = Some 1, deleted_page_set = {},
               leaf_max = 3, internal_max = 4\<rparr>"

text \<open>A tree of height two: the root 1 over the internal pages 2 and 3, page 3 with
  a single child left.\<close>

definition two_level :: BPlusTree where
  "two_level = \<lparr>root_page_id = 1,
      store = [1 \<mapsto> internal_of 1 INVALID_PAGE_ID 4 [(0, 2), (50, 3)],
               2 \<mapsto> internal_of 2 1 4 [(0, 4), (20, 5)],
               3 \<mapsto> internal_of 3 1 4 [(0, 6)],
               4 \<mapsto> leaf_of 4 2 5 3 [(10, (0, 0)), (11, (0, 0))],
               5 \<mapsto> leaf_of 5 2 6 3 [(20, (0, 0)), (21, (0, 0))],
               6 \<mapsto> leaf_of 6 3 INVALID_PAGE_ID 3 [(60, (0, 0)), (61, (0, 0))]],
      next_page_id = 7, header_root = Some 1, deleted_page_set = {},
      leaf_max = 3, internal_max = 4\<rparr>"

text \<open>A root over the leaves 1 and 2 with the separator 3, as it is after the keys 1 to
  4 were inserted and the key 3 was removed from leaf 2.\<close>

definition leaves_12_4 :: BPlusTree where
  "leaves_12_4 = \<lparr>root_page_id = 3,
      store = [3 \<mapsto> internal_of 3 INVALID_PAGE_ID 4 [(0, 1), (3, 2)],
               1 \<mapsto> leaf_of 1 3 2 3 [(1, (0, 0)), (2, (0, 0))],
               2 \<mapsto> leaf_of 2 3 INVALID_PAGE_ID 3 [(4, (0, 0))]],
      next_page_id = 4, header_root = Some 3, deleted_page_set = {},
      leaf_max = 3, internal_max = 4\<rparr>"


chapter \<open>Properties\<close>

section \<open>Lock manager\<close>

lemma grant_walk_shared_prefix:
  "\<forall>x\<in>set ss. \<not> granted x \<and> mode x = SHARED \<Longrightarrow>
   grant_walk (ss @ rest) h = (map Grant ss @ fst (grant_walk rest h), snd (grant_walk rest h))"
  by (induction ss) (auto split: prod.splits)

lemma grant_walk_stop:
  "rest = [] \<or> granted (hd rest) \<or> mode (hd rest) \<noteq> SHARED \<Longrightarrow>
   grant_walk rest h =
     (case rest of [] \<Rightarrow> ([], h)
      | y # ys \<Rightarrow>
          if granted y then (y # ys, h)
          else if mode y = UPGRADING then ((Grant y)\<lparr>mode := EXCLUSIVE\<rparr> # ys, False)
          else (Grant y # ys, h))"
  by (cases rest) auto

lemma find_tid_absent: "\<forall>z\<in>set ys. tid z \<noteq> t \<Longrightarrow> find_tid t ys = None"
  by (induction ys) auto

lemma find_tid_erase_distinct:
  "distinct (map tid xs) \<Longrightarrow> find_tid t (erase_tid t xs) = None"
proof (induction xs)
  case Nil
  then show ?case by simp
next
  case (Cons x xs)
  show ?case
  proof (cases "tid x = t")
    case True
    with Cons.prems have "\<forall>z\<in>set xs. tid z \<noteq> t" by (auto simp: image_iff)
    then show ?thesis using True by (simp add: find_tid_absent)
  next
    case False
    then show ?thesis using Cons by simp
  qed
qed

text \<open>
  C2 (wait-die). A request of any of the three kinds that reaches the grantability
  test of \<open>lockTemplate\<close> (the transaction is growing; for an upgrade, step 2 has erased
  its shared item, leaving the list \<open>l1\<close> and the transaction \<open>txn1\<close>) and is not
  grantable: when the last queued item's transaction id is smaller than the
  requester's, the requester is set to ABORTED and the call returns false; otherwise
  the call blocks on an ungranted item appended to the list, and the transaction is
  still growing.
\<close>

theorem wait_die:
  assumes grow: "state txn = GROWING"
    and reach: "(if m = UPGRADING then upgrade_step (table_at (lockTable lm) rid) txn rid
                 else Go (table_at (lockTable lm) rid, txn)) = Go (l1, txn1)"
    and nogrant: "\<not> checkCanGrant l1 m"
  shows "state txn1 = GROWING \<and> txn_id txn1 = txn_id txn \<and>
         (case m of SHARED \<Rightarrow> LockShared lm txn rid
                  | EXCLUSIVE \<Rightarrow> LockExclusive lm txn rid
                  | UPGRADING \<Rightarrow> LockUpgrade lm txn rid) =
           (if tid (last (locks l1)) < txn_id txn
            then Inr (Returned False, lm\<lparr>lockTable := (lockTable lm)(rid \<mapsto> l1)\<rparr>,
                      txn1\<lparr>state := ABORTED\<rparr>)
            else Inr (Blocked,
                      lm\<lparr>lockTable := (lockTable lm)(rid \<mapsto>
                           l1\<lparr>locks := locks l1 @ [\<lparr>tid = txn_id txn, mode = m, granted = False\<rparr>],
                              hasUpgrading := (hasUpgrading l1 \<or> m = UPGRADING)\<rparr>)\<rparr>,
                      txn1))"
proof -
  have t1: "state txn1 = GROWING \<and> txn_id txn1 = txn_id txn"
    using grow reach
    by (auto simp: upgrade_step_def split: if_splits option.splits)
  have "lockTemplate lm txn rid m =
           (if tid (last (locks l1)) < txn_id txn
            then Inr (Returned False, lm\<lparr>lockTable := (lockTable lm)(rid \<mapsto> l1)\<rparr>,
                      txn1\<lparr>state := ABORTED\<rparr>)
            else Inr (Blocked,
                      lm\<lparr>lockTable := (lockTable lm)(rid \<mapsto>
                           l1\<lparr>locks := locks l1 @ [\<lparr>tid = txn_id txn, mode = m, granted = False\<rparr>],
                              hasUpgrading := (hasUpgrading l1 \<or> m = UPGRADING)\<rparr>)\<rparr>,
                      txn1))"
    using grow reach nogrant t1
    by (simp add: lockTemplate_def TxList_insert_def Let_def)
  then show ?thesis
    using t1 by (cases m) (simp_all add: LockShared_def LockExclusive_def LockUpgrade_def)
qed

text \<open>Transaction 1 holds the exclusive lock: the shared request of transaction 2
  dies, that of transaction 0 blocks.\<close>

theorem wait_die_witness:
  "LockShared held_by_1 (fresh_txn 2) (3, 0) =
     Inr (Returned False, held_by_1, (fresh_txn 2)\<lparr>state := ABORTED\<rparr>) \<and>
   LockShared held_by_1 (fresh_txn 0) (3, 0) =
     Inr (Blocked,
          held_by_1\<lparr>lockTable := [(3, 0) \<mapsto> \<lparr>locks =
              [\<lparr>tid = 1, mode = EXCLUSIVE, granted = True\<rparr>,
               \<lparr>tid = 0, mode = SHARED, granted = False\<rparr>], hasUpgrading = False\<rparr>]\<rparr>,
          fresh_txn 0)"
  using wait_die [of "fresh_txn 2" SHARED held_by_1 "(3, 0)"
                     "\<lparr>locks = [\<lparr>tid = 1, mode = EXCLUSIVE, granted = True\<rparr>], hasUpgrading = False\<rparr>"
                     "fresh_txn 2"]
        wait_die [of "fresh_txn 0" SHARED held_by_1 "(3, 0)"
                     "\<lparr>locks = [\<lparr>tid = 1, mode = EXCLUSIVE, granted = True\<rparr>], hasUpgrading = False\<rparr>"
                     "fresh_txn 0"]
  by (simp add: held_by_1_def fresh_txn_def table_at_def checkCanGrant_def)

text \<open>
  C3, as amended (the walk of \<open>Unlock\<close>). When a list remains after the caller's item
  is erased, the walk from its head grants the leading run \<open>ss\<close> of ungranted shared
  items and then stops at the first other item \<open>y\<close>: an item that is already granted,
  of whatever mode, ends the walk with nothing more granted; an ungranted exclusive
  item is granted; an ungranted upgrading item is granted, becomes exclusive, and
  \<open>hasUpgrading\<close> is cleared. The items behind \<open>y\<close> are left as they are.
\<close>

theorem unlock_grant_walk:
  assumes st: "unlock_state (strict_2PL lm) txn = Some txn1"
    and found: "find_tid (txn_id txn) (locks (table_at (lockTable lm) rid)) = Some it"
    and held: "rid \<in> (if mode it = SHARED then shared_lock_set txn1 else exclusive_lock_set txn1)"
    and remaining: "erase_tid (txn_id txn) (locks (table_at (lockTable lm) rid)) = ss @ rest"
    and nonempty: "ss @ rest \<noteq> []"
    and run: "\<forall>x\<in>set ss. \<not> granted x \<and> mode x = SHARED"
    and stop: "rest = [] \<or> granted (hd rest) \<or> mode (hd rest) \<noteq> SHARED"
  shows "\<exists>lm' txn'. Unlock lm txn rid = Inr (True, lm', txn') \<and>
           lockTable lm' rid = Some
             (case rest of
                [] \<Rightarrow> \<lparr>locks = map Grant ss, hasUpgrading = hasUpgrading (table_at (lockTable lm) rid)\<rparr>
              | y # ys \<Rightarrow>
                  if granted y then
                    \<lparr>locks = map Grant ss @ y # ys,
                     hasUpgrading = hasUpgrading (table_at (lockTable lm) rid)\<rparr>
                  else if mode y = UPGRADING then
                    \<lparr>locks = map Grant ss @ (Grant y)\<lparr>mode := EXCLUSIVE\<rparr> # ys, hasUpgrading = False\<rparr>
                  else
                    \<lparr>locks = map Grant ss @ Grant y # ys,
                     hasUpgrading = hasUpgrading (table_at (lockTable lm) rid)\<rparr>)"
proof -
  let ?l = "table_at (lockTable lm) rid"
  let ?txn2 = "if mode it = SHARED
               then txn1\<lparr>shared_lock_set := shared_lock_set txn1 - {rid}\<rparr>
               else txn1\<lparr>exclusive_lock_set := exclusive_lock_set txn1 - {rid}\<rparr>"
  obtain ls h where gw: "grant_walk (ss @ rest) (hasUpgrading ?l) = (ls, h)"
    by (cases "grant_walk (ss @ rest) (hasUpgrading ?l)")
  have id: "txn_id txn1 = txn_id txn"
    using st by (auto simp: unlock_state_def split: if_splits)
  have call: "Unlock lm txn rid =
      Inr (True, lm\<lparr>lockTable := (lockTable lm)(rid \<mapsto> \<lparr>locks = ls, hasUpgrading = h\<rparr>)\<rparr>, ?txn2)"
    using st found held remaining nonempty id gw
    by (auto simp: Unlock_def Let_def)
  have "(ls, h) = (map Grant ss @ fst (grant_walk rest (hasUpgrading ?l)),
                   snd (grant_walk rest (hasUpgrading ?l)))"
    using grant_walk_shared_prefix [OF run, of rest "hasUpgrading ?l"] gw by simp
  then have "\<lparr>locks = ls, hasUpgrading = h\<rparr> =
      (case rest of
         [] \<Rightarrow> \<lparr>locks = map Grant ss, hasUpgrading = hasUpgrading ?l\<rparr>
       | y # ys \<Rightarrow>
           if granted y then \<lparr>locks = map Grant ss @ y # ys, hasUpgrading = hasUpgrading ?l\<rparr>
           else if mode y = UPGRADING then
             \<lparr>locks = map Grant ss @ (Grant y)\<lparr>mode := EXCLUSIVE\<rparr> # ys, hasUpgrading = False\<rparr>
           else \<lparr>locks = map Grant ss @ Grant y # ys, hasUpgrading = hasUpgrading ?l\<rparr>)"
    using grant_walk_stop [OF stop, of "hasUpgrading ?l"]
    by (cases rest) (auto split: if_splits)
  with call show ?thesis by simp
qed

text \<open>Transaction 9 unlocks: the two shared requests at the head are granted, the
  upgrade behind them is granted and promoted, the request behind it still waits.\<close>

theorem unlock_grant_walk_witness:
  "\<exists>lm' txn'. Unlock queue_9 done_9 (3, 0) = Inr (True, lm', txn') \<and>
     lockTable lm' (3, 0) = Some \<lparr>locks =
         [\<lparr>tid = 3, mode = SHARED, granted = True\<rparr>,
          \<lparr>tid = 2, mode = SHARED, granted = True\<rparr>,
          \<lparr>tid = 1, mode = EXCLUSIVE, granted = True\<rparr>,
          \<lparr>tid = 0, mode = SHARED, granted = False\<rparr>], hasUpgrading = False\<rparr>"
  using unlock_grant_walk [where lm = queue_9 and txn = done_9 and ?txn1.0 = done_9
      and it = "\<lparr>tid = 9, mode = EXCLUSIVE, granted = True\<rparr>" and rid = "(3, 0)"
      and ss = "[\<lparr>tid = 3, mode = SHARED, granted = False\<rparr>,
                 \<lparr>tid = 2, mode = SHARED, granted = False\<rparr>]"
      and rest = "[\<lparr>tid = 1, mode = UPGRADING, granted = False\<rparr>,
                   \<lparr>tid = 0, mode = SHARED, granted = False\<rparr>]"]
  by (simp add: queue_9_def done_9_def unlock_state_def table_at_def Grant_def)

text \<open>
  C3 as stated fails: it has the walk continue past items that are already granted
  and shared, and stop only after it has granted an exclusive or upgrading item. Here
  transaction 5 unlocks while transaction 4 still holds its shared lock: the walk
  stops at the granted item of transaction 4, and the exclusive request of
  transaction 3 behind it is not granted.
\<close>

theorem unlock_walk_counterexample:
  "Unlock readers_5_4 reader_5 (7, 0) =
     Inr (True,
          readers_5_4\<lparr>lockTable := [(7, 0) \<mapsto> \<lparr>locks =
             [\<lparr>tid = 4, mode = SHARED, granted = True\<rparr>,
              \<lparr>tid = 3, mode = EXCLUSIVE, granted = False\<rparr>], hasUpgrading = False\<rparr>]\<rparr>,
          reader_5\<lparr>state := SHRINKING, shared_lock_set := {}\<rparr>)"
  by (simp add: Unlock_def readers_5_4_def reader_5_def unlock_state_def table_at_def Grant_def)

text \<open>
  C10 (a failed upgrade is not atomic). A growing transaction holds a granted shared
  item on \<open>rid\<close>, no upgrade is pending, and its \<open>LockUpgrade\<close> dies by wait-die (other
  items remain once its own is erased, and the last of them has a smaller id). The
  call returns false with the transaction ABORTED, and at that point the shared item
  is gone from the list of \<open>rid\<close> and \<open>rid\<close> is gone from the shared lock set; when
  the transaction had one item in the list, none of its items is left.
\<close>

theorem upgrade_failure_not_atomic:
  assumes grow: "state txn = GROWING"
    and noup: "\<not> hasUpgrading (table_at (lockTable lm) rid)"
    and found: "find_tid (txn_id txn) (locks (table_at (lockTable lm) rid)) = Some it"
    and shared: "mode it = SHARED" "granted it"
    and held: "rid \<in> shared_lock_set txn"
    and others: "erase_tid (txn_id txn) (locks (table_at (lockTable lm) rid)) \<noteq> []"
    and younger: "tid (last (erase_tid (txn_id txn) (locks (table_at (lockTable lm) rid)))) < txn_id txn"
  shows "\<exists>lm' txn'. LockUpgrade lm txn rid = Inr (Returned False, lm', txn') \<and>
           state txn' = ABORTED \<and>
           rid \<notin> shared_lock_set txn' \<and>
           exclusive_lock_set txn' = exclusive_lock_set txn \<and>
           locks (table_at (lockTable lm') rid) =
             erase_tid (txn_id txn) (locks (table_at (lockTable lm) rid)) \<and>
           (distinct (map tid (locks (table_at (lockTable lm) rid))) \<longrightarrow>
              find_tid (txn_id txn) (locks (table_at (lockTable lm') rid)) = None)"
proof -
  let ?l = "table_at (lockTable lm) rid"
  have step: "upgrade_step ?l txn rid =
      Go (?l\<lparr>locks := erase_tid (txn_id txn) (locks ?l)\<rparr>,
          txn\<lparr>shared_lock_set := shared_lock_set txn - {rid}\<rparr>)"
    using noup found shared held by (simp add: upgrade_step_def)
  have call: "LockUpgrade lm txn rid =
      Inr (Returned False,
           lm\<lparr>lockTable := (lockTable lm)(rid \<mapsto> ?l\<lparr>locks := erase_tid (txn_id txn) (locks ?l)\<rparr>)\<rparr>,
           txn\<lparr>shared_lock_set := shared_lock_set txn - {rid}, state := ABORTED\<rparr>)"
    using grow others younger
    by (simp add: LockUpgrade_def lockTemplate_def step checkCanGrant_def Let_def)
  show ?thesis
    unfolding call by (simp add: table_at_def find_tid_erase_distinct)
qed

text \<open>Transactions 5 and 3 share the lock; the upgrade of transaction 5 dies and
  leaves the list with the item of transaction 3 only.\<close>

theorem upgrade_failure_not_atomic_witness:
  "LockUpgrade readers_5_3 reader_5 (7, 0) =
     Inr (Returned False,
          readers_5_3\<lparr>lockTable := [(7, 0) \<mapsto> \<lparr>locks =
             [\<lparr>tid = 3, mode = SHARED, granted = True\<rparr>], hasUpgrading = False\<rparr>]\<rparr>,
          reader_5\<lparr>state := ABORTED, shared_lock_set := {}\<rparr>)"
  using upgrade_failure_not_atomic [of reader_5 readers_5_3 "(7, 0)"
      "\<lparr>tid = 5, mode = SHARED, granted = True\<rparr>"]
  by (simp add: readers_5_3_def reader_5_def table_at_def)
    (simp add: LockUpgrade_def lockTemplate_def upgrade_step_def checkCanGrant_def
      table_at_def readers_5_3_def reader_5_def)

section \<open>Buffer pool manager\<close>

text \<open>
  C1 (the write-ahead guard), evaluated at the input where the code breaks it.
  Logging is enabled and the log is persistent up to sequence number 5; page 3 is
  resident and dirty with sequence number 7. \<open>FlushPage\<close> writes the page to the data
  file and leaves the log manager as it was: the page is on disk with a sequence
  number above the persistent one. The write-back of \<open>FetchPage\<close> and \<open>NewPage\<close>
  (\<open>write_back\<close>) forces the log first.
\<close>

theorem flush_page_bypasses_wal_guard:
  "FlushPage (two_frames 0 0) 3 =
     (True, (two_frames 0 0)
        \<lparr>disk_manager := no_disk\<lparr>db_file := (db_file no_disk)(3 := \<lparr>page_lsn = 7, payload = [1, 2]\<rparr>),
                                 calls := [Wrote 3 \<lparr>page_lsn = 7, payload = [1, 2]\<rparr>]\<rparr>,
          pages := [\<lparr>page_id = 3, pin_count = 0, is_dirty = False,
                     data = \<lparr>page_lsn = 7, payload = [1, 2]\<rparr>\<rparr>,
                    \<lparr>page_id = 4, pin_count = 0, is_dirty = False, data = zero_data\<rparr>]\<rparr>) \<and>
   log_manager (snd (FlushPage (two_frames 0 0) 3)) =
     Some \<lparr>persistent_lsn = 5, lastLsn = 7, logBufferOffset = 40, needFlush = False\<rparr>"
  by (simp add: FlushPage_def two_frames_def INVALID_PAGE_ID_def WritePage_def no_disk_def)

text \<open>The write-back of a dirty victim does keep the guard: when the page's sequence
  number was handed out by the log manager and the records above the persistent
  number are still in the log buffer, the page is written with the persistent number
  at or above its own.\<close>

lemma victim_write_back_guarded:
  assumes "ENABLE_LOGGING b" "log_manager b = Some l" "is_dirty (pages b ! tar)"
    and "GetLSN (pages b ! tar) \<le> lastLsn l"
    and "persistent_lsn l < lastLsn l \<longrightarrow> 0 < logBufferOffset l"
  shows "\<exists>b' l'. write_back b tar = Inr b' \<and> log_manager b' = Some l' \<and>
           GetLSN (pages b ! tar) \<le> persistent_lsn l' \<and>
           calls (disk_manager b') =
             calls (disk_manager b) @ [Wrote (page_id (pages b ! tar)) (data (pages b ! tar))]"
  using assms
  by (auto simp: write_back_def Flush_force_def flush_thread_wakeup_def WritePage_def Let_def)

text \<open>
  C8, as amended (\<open>DeletePage\<close>). In a pool whose replacer holds no frame twice: when
  the page is resident with a positive pin count, the call fails and changes nothing,
  so the disk manager is not called; otherwise the call succeeds, a resident page's
  frame leaves the replacer and the page table, is reset and is appended to the free
  list, and \<open>DeallocatePage\<close> is called on the disk manager.
\<close>

theorem delete_page_effects:
  assumes wf: "distinct (replacer b)" "\<forall>f. page_table b pid = Some f \<longrightarrow> f < length (pages b)"
  shows "(case page_table b pid of
            Some f \<Rightarrow>
              if pin_count (pages b ! f) > 0 then DeletePage b pid = (False, b)
              else fst (DeletePage b pid) \<and>
                   f \<notin> set (replacer (snd (DeletePage b pid))) \<and>
                   page_table (snd (DeletePage b pid)) pid = None \<and>
                   pages (snd (DeletePage b pid)) ! f =
                     \<lparr>page_id = INVALID_PAGE_ID, pin_count = pin_count (pages b ! f),
                      is_dirty = False, data = zero_data\<rparr> \<and>
                   free_list (snd (DeletePage b pid)) = free_list b @ [f] \<and>
                   calls (disk_manager (snd (DeletePage b pid))) =
                     calls (disk_manager b) @ [Deallocated pid]
          | None \<Rightarrow>
              DeletePage b pid = (True, b\<lparr>disk_manager := DeallocatePage (disk_manager b) pid\<rparr>) \<and>
              calls (disk_manager (snd (DeletePage b pid))) =
                calls (disk_manager b) @ [Deallocated pid])"
  using wf
  by (auto simp: DeletePage_def replacer_Erase_def DeallocatePage_def ResetMemory_def
      split: option.splits)

text \<open>Page 3 is pinned, page 4 is not, page 9 is not resident.\<close>

theorem delete_page_effects_witness:
  "DeletePage (two_frames 1 0) 3 = (False, two_frames 1 0) \<and>
   fst (DeletePage (two_frames 1 0) 4) \<and>
   1 \<notin> set (replacer (snd (DeletePage (two_frames 1 0) 4))) \<and>
   page_table (snd (DeletePage (two_frames 1 0) 4)) 4 = None \<and>
   pages (snd (DeletePage (two_frames 1 0) 4)) ! 1 =
     \<lparr>page_id = INVALID_PAGE_ID, pin_count = 0, is_dirty = False, data = zero_data\<rparr> \<and>
   free_list (snd (DeletePage (two_frames 1 0) 4)) = [1] \<and>
   calls (disk_manager (snd (DeletePage (two_frames 1 0) 4))) = [Deallocated 4] \<and>
   calls (disk_manager (snd (DeletePage (two_frames 1 0) 9))) = [Deallocated 9]"
  using delete_page_effects [of "two_frames 1 0" 3] delete_page_effects [of "two_frames 1 0" 4]
    delete_page_effects [of "two_frames 1 0" 9]
  by (simp add: two_frames_def no_disk_def DeletePage_def replacer_Erase_def DeallocatePage_def
      ResetMemory_def)

text \<open>
  C8 as stated fails: it has \<open>DeallocatePage\<close> called also when the call fails. Page 3
  is resident and pinned: \<open>DeletePage\<close> returns false with the pool unchanged, and the
  disk manager has received no call.
\<close>

theorem delete_page_counterexample:
  "DeletePage (two_frames 1 0) 3 = (False, two_frames 1 0) \<and>
   calls (disk_manager (snd (DeletePage (two_frames 1 0) 3))) = []"
  by (simp add: DeletePage_def two_frames_def no_disk_def)

text \<open>The loop of \<open>CheckAllUnpined\<close> and the frames it looks at.\<close>

lemma CheckAllUnpined_loop_eq:
  "CheckAllUnpined_loop ps n i res = (res \<and> (\<forall>j. i \<le> j \<and> j < n \<longrightarrow> pin_count (ps ! j) = 0))"
proof (induction ps n i res rule: CheckAllUnpined_loop.induct)
  case (1 ps n i res)
  show ?case
  proof (cases "i < n")
    case True
    have split: "(\<forall>j. i \<le> j \<and> j < n \<longrightarrow> pin_count (ps ! j) = 0) \<longleftrightarrow>
          pin_count (ps ! i) = 0 \<and> (\<forall>j. i + 1 \<le> j \<and> j < n \<longrightarrow> pin_count (ps ! j) = 0)"
    proof -
      have "i \<le> j \<longleftrightarrow> j = i \<or> i + 1 \<le> j" for j by auto
      then show ?thesis using True by auto
    qed
    have "CheckAllUnpined_loop ps n i res =
          CheckAllUnpined_loop ps n (i + 1) (if pin_count (ps ! i) \<noteq> 0 then False else res)"
      using True by (subst CheckAllUnpined_loop.simps) simp
    also have "\<dots> = ((if pin_count (ps ! i) \<noteq> 0 then False else res) \<and>
          (\<forall>j. i + 1 \<le> j \<and> j < n \<longrightarrow> pin_count (ps ! j) = 0))"
      by (rule 1 [OF True])
    finally show ?thesis
      unfolding split by auto
  next
    case False
    then show ?thesis by (subst CheckAllUnpined_loop.simps) auto
  qed
qed

lemma CheckAllUnpined_eq:
  "CheckAllUnpined b \<longleftrightarrow> (\<forall>j. 1 \<le> j \<and> j < pool_size b \<longrightarrow> pin_count (pages b ! j) = 0)"
  by (simp add: CheckAllUnpined_def CheckAllUnpined_loop_eq)

text \<open>
  C9 (\<open>CheckAllUnpined\<close>), evaluated at the input where the code misses a pin. The
  loop starts at frame 1: with page 3 pinned once in frame 0 and frame 1 unpinned,
  the check returns true.
\<close>

theorem check_all_unpinned_misses_frame_0:
  "CheckAllUnpined (two_frames 1 0) \<and> pin_count (pages (two_frames 1 0) ! 0) = 1"
  by (simp add: CheckAllUnpined_eq two_frames_def less_Suc_eq)

section \<open>B+tree pages\<close>

lemma copy_loop_eq:
  "copy_loop src dst off i n =
     (\<lambda>j. if i + off \<le> j \<and> j < n + off then src (j - off) else dst j)"
proof (induction src dst off i n rule: copy_loop.induct)
  case (1 src dst off i n)
  show ?case
  proof (cases "i < n")
    case True
    then show ?thesis
      by (subst copy_loop.simps) (auto simp: 1 fun_eq_iff)
  next
    case False
    then show ?thesis
      by (subst copy_loop.simps) (auto simp: fun_eq_iff)
  qed
qed

lemma map_upt_shift:
  "map (\<lambda>i. f (int i + int k)) [0..<n] = map (\<lambda>i. f (int i)) [k..<k + n]"
  by (induction n) (auto simp: add.commute)

lemma leaf_entries_leaf_of [simp]: "leaf_entries (leaf_of pid parent next mx es) = es"
  by (auto simp: leaf_entries_def slots_def leaf_of_def intro: nth_equalityI)

lemma internal_entries_internal_of [simp]: "internal_entries (internal_of pid parent mx es) = es"
  by (auto simp: internal_entries_def slots_def internal_of_def intro: nth_equalityI)

text \<open>
  C6 (the split of a leaf). A leaf holding \<open>max_size + 1\<close> entries, with
  \<open>max_size \<ge> 1\<close>, and a leaf recipient of the same maximal size: \<open>MoveHalfTo\<close> keeps
  the first \<open>(max_size + 1) / 2\<close> entries, moves the others to the recipient, links the
  recipient to the old successor and the page to the recipient, and both pages end
  with at least their minimal size.
\<close>

theorem leaf_split_halves:
  assumes full: "Size p = MaxSize p + 1"
    and pos: "1 \<le> MaxSize p"
    and leaves: "PageType p = LEAF_PAGE" "PageType recipient = LEAF_PAGE"
    and same_max: "MaxSize recipient = MaxSize p"
  shows "\<exists>p' r'. leaf_MoveHalfTo p recipient = Inr (p', r') \<and>
           leaf_entries p' = take (nat ((MaxSize p + 1) div 2)) (leaf_entries p) \<and>
           leaf_entries r' = drop (nat ((MaxSize p + 1) div 2)) (leaf_entries p) \<and>
           NextPageId r' = NextPageId p \<and>
           NextPageId p' = PageId recipient \<and>
           GetMinSize p' \<le> Size p' \<and>
           GetMinSize r' \<le> Size r'"
proof -
  let ?total = "MaxSize p + 1"
  let ?c = "?total div 2"
  let ?p' = "p\<lparr>NextPageId := PageId recipient, Size := ?c\<rparr>"
  let ?r' = "recipient\<lparr>leaf_array := copy_loop (leaf_array p) (leaf_array recipient) (- ?c) ?c ?total,
                        NextPageId := NextPageId p, Size := ?total - ?c\<rparr>"
  have call: "leaf_MoveHalfTo p recipient = Inr (?p', ?r')"
    using full by (simp add: leaf_MoveHalfTo_def Let_def)
  have c_bounds: "0 \<le> ?c" "?c \<le> ?total" "1 \<le> ?c" "1 \<le> ?total - ?c"
    using pos by auto
  have left: "leaf_entries ?p' = take (nat ?c) (leaf_entries p)"
    using full c_bounds by (simp add: leaf_entries_def slots_def take_map min_def)
  have "leaf_entries ?r' = map (\<lambda>i. leaf_array p (int i + ?c)) [0..<nat (?total - ?c)]"
    using c_bounds by (auto simp: leaf_entries_def slots_def copy_loop_eq)
  also have "\<dots> = map (\<lambda>i. leaf_array p (int i + int (nat ?c))) [0..<nat (?total - ?c)]"
    using c_bounds by simp
  also have "\<dots> = map (\<lambda>i. leaf_array p (int i)) [nat ?c..<nat ?c + nat (?total - ?c)]"
    by (rule map_upt_shift)
  also have "\<dots> = drop (nat ?c) (leaf_entries p)"
    using full c_bounds
    by (simp add: leaf_entries_def slots_def drop_map nat_add_distrib [symmetric])
  finally have right: "leaf_entries ?r' = drop (nat ?c) (leaf_entries p)" .
  have mins: "GetMinSize ?p' \<le> Size ?p'" "GetMinSize ?r' \<le> Size ?r'"
    using c_bounds leaves same_max
    by (auto simp: GetMinSize_def IsRootPage_def IsLeafPage_def)
  show ?thesis
    unfolding call using left right mins by simp
qed

text \<open>A leaf of maximal size 3 with the keys 1 to 4 splits into the keys 1, 2 and the
  keys 3, 4.\<close>

theorem leaf_split_halves_witness:
  "\<exists>p' r'. leaf_MoveHalfTo (leaf_of 1 7 9 3 [(1, (1, 0)), (2, (2, 0)), (3, (3, 0)), (4, (4, 0))])
              (leaf_Init 3 zero_page 2 7) = Inr (p', r') \<and>
     leaf_entries p' = [(1, (1, 0)), (2, (2, 0))] \<and>
     leaf_entries r' = [(3, (3, 0)), (4, (4, 0))] \<and>
     NextPageId r' = 9 \<and> NextPageId p' = 2 \<and>
     GetMinSize p' \<le> Size p' \<and> GetMinSize r' \<le> Size r'"
  using leaf_split_halves [of "leaf_of 1 7 9 3 [(1, (1, 0)), (2, (2, 0)), (3, (3, 0)), (4, (4, 0))]"
      "leaf_Init 3 zero_page 2 7"]
  by (simp add: leaf_Init_def zero_page_def) (simp add: leaf_of_def)

section \<open>B+tree\<close>

lemma FreePagesInTransaction_none:
  "deleted_page_set t = {} \<Longrightarrow> FreePagesInTransaction t = t"
  by (simp add: FreePagesInTransaction_def)

text \<open>
  C5 (unique keys). In a tree where \<open>GetValue\<close> finds the value \<open>v0\<close> under the key
  \<open>k\<close>, between operations (the transaction's deleted set is empty), \<open>Insert\<close> of
  \<open>k\<close> with any value returns false and leaves the tree as it was, so that
  \<open>GetValue\<close> still finds \<open>v0\<close>.
\<close>

theorem duplicate_insert_rejected:
  assumes mapped: "GetValue t k = Some (Inr (Some v0))"
    and idle: "deleted_page_set t = {}"
  shows "\<exists>t'. Insert t k v1 = Some (Inr (False, t')) \<and> t' = t \<and>
           GetValue t' k = Some (Inr (Some v0))"
proof -
  obtain leaf where found: "FindLeafPage t k False = Some (Inr (Some leaf))"
    and look: "bind_err (fetch t leaf) (\<lambda>p. leaf_Lookup p k) = Inr (Some v0)"
    using mapped
    by (auto simp: GetValue_def split: option.splits sum.splits)
  have nonempty: "\<not> IsEmpty t"
    using found by (auto simp: FindLeafPage_def split: if_splits)
  obtain p where p: "fetch t leaf = Inr p" "leaf_Lookup p k = Inr (Some v0)"
    using look by (auto simp: bind_err_def split: sum.splits)
  have "InsertIntoLeaf t k v1 = Some (Inr (False, t))"
    using found p idle
    by (simp add: InsertIntoLeaf_def bind_err_def FreePagesInTransaction_none)
  then show ?thesis
    using nonempty mapped by (simp add: Insert_def)
qed

lemma get_one_leaf: "GetValue one_leaf 5 = Some (Inr (Some (0, 0)))"
  by code_simp

text \<open>The first boundary scenario of the spec: the key 5 is mapped to \<open>(0, 0)\<close>, and the
  insertion of 5 with \<open>(1, 1)\<close> is refused.\<close>

theorem duplicate_insert_rejected_witness:
  "Insert one_leaf 5 (1, 1) = Some (Inr (False, one_leaf)) \<and>
   GetValue one_leaf 5 = Some (Inr (Some (0, 0)))"
  using duplicate_insert_rejected [of one_leaf 5 "(0, 0)" "(1, 1)"] get_one_leaf
  by (simp add: one_leaf_def)

section \<open>Arrays and pages\<close>

subsection \<open>The slots of an array as a list\<close>

lemma length_slots [simp]: "length (slots a n) = nat n"
  by (simp add: slots_def)

lemma nth_slots [simp]: "i < nat n \<Longrightarrow> slots a n ! i = a (int i)"
  by (simp add: slots_def)

lemma slots_nonpos [simp]: "n \<le> 0 \<Longrightarrow> slots a n = []"
  by (simp add: slots_def)

lemma slots_cong: "(\<And>i. 0 \<le> i \<Longrightarrow> i < n \<Longrightarrow> a i = b i) \<Longrightarrow> slots a n = slots b n"
  by (auto simp: slots_def)

lemma slots_take: "m \<le> n \<Longrightarrow> slots a m = take (nat m) (slots a n)"
  by (auto simp: slots_def take_map min_def)

lemma slots_drop: "0 \<le> m \<Longrightarrow> slots (\<lambda>i. a (i + m)) (n - m) = drop (nat m) (slots a n)"
  by (rule nth_equalityI) (auto simp: nat_diff_distrib add.commute)

lemma slots_snoc: "0 \<le> n \<Longrightarrow> slots (a(n := x)) (n + 1) = slots a n @ [x]"
  by (rule nth_equalityI) (auto simp: nth_append nat_add_distrib)

lemma slots_upd_out: "n \<le> j \<or> j < 0 \<Longrightarrow> slots (a(j := x)) n = slots a n"
  by (rule slots_cong) auto

lemma shift_up_eq: "shift_up a idx i = (\<lambda>j. if idx < j \<and> j \<le> i then a (j - 1) else a j)"
proof (induction a idx i rule: shift_up.induct)
  case (1 a idx i)
  show ?case
  proof (cases "i > idx")
    case True
    then show ?thesis by (subst shift_up.simps) (auto simp: 1 fun_eq_iff)
  next
    case False
    then show ?thesis by (subst shift_up.simps) (auto simp: fun_eq_iff)
  qed
qed

lemma shift_down_eq: "shift_down a i n = (\<lambda>j. if i - 1 \<le> j \<and> j < n - 1 then a (j + 1) else a j)"
proof (induction a i n rule: shift_down.induct)
  case (1 a i n)
  show ?case
  proof (cases "i < n")
    case True
    then show ?thesis by (subst shift_down.simps) (auto simp: 1 fun_eq_iff)
  next
    case False
    then show ?thesis by (subst shift_down.simps) (auto simp: fun_eq_iff)
  qed
qed

lemma slots_insert:
  assumes "0 \<le> idx" "idx \<le> n"
  shows "slots ((shift_up a idx n)(idx := x)) (n + 1) =
         take (nat idx) (slots a n) @ x # drop (nat idx) (slots a n)"
  using assms
  by (intro nth_equalityI) (auto simp: shift_up_eq nth_append nat_add_distrib min_def
      nat_diff_distrib nat_less_iff int_ops add.commute)

lemma slots_delete_memmove:
  assumes "0 \<le> idx" "idx < n"
  shows "slots (memmove a idx (idx + 1) (n - idx - 1)) (n - 1) =
         take (nat idx) (slots a n) @ drop (nat idx + 1) (slots a n)"
  using assms
  by (intro nth_equalityI) (auto simp: memmove_def nth_append min_def nat_diff_distrib
      nat_less_iff int_ops add.commute)

lemma slots_delete_shift:
  assumes "0 \<le> idx" "idx < n"
  shows "slots (shift_down a (idx + 1) n) (n - 1) =
         take (nat idx) (slots a n) @ drop (nat idx + 1) (slots a n)"
  using assms
  by (intro nth_equalityI) (auto simp: shift_down_eq nth_append min_def nat_diff_distrib
      nat_less_iff int_ops add.commute)

lemma slots_push_front:
  assumes "0 \<le> n"
  shows "slots ((memmove a 1 0 n)(0 := x)) (n + 1) = x # slots a n"
  using assms
  by (intro nth_equalityI) (auto simp: memmove_def nth_Cons' nat_add_distrib int_ops)

lemma slots_pop_front:
  assumes "1 \<le> n"
  shows "slots (memmove a 0 1 (n - 1)) (n - 1) = tl (slots a n)"
  using assms
  by (intro nth_equalityI) (auto simp: memmove_def nth_tl nat_diff_distrib int_ops add.commute)

lemma slots_copy_append:
  assumes "0 \<le> start" "0 \<le> m"
  shows "slots (copy_loop src dst start 0 m) (start + m) = slots dst start @ slots src m"
  using assms
  by (intro nth_equalityI) (auto simp: copy_loop_eq nth_append nat_add_distrib nat_diff_distrib
      nat_less_iff int_ops add.commute)

subsection \<open>The binary searches\<close>

lemma comparator_simps [simp]:
  "comparator a b \<ge> 0 \<longleftrightarrow> b \<le> a"
  "comparator a b \<le> 0 \<longleftrightarrow> a \<le> b"
  "comparator a b = 0 \<longleftrightarrow> a = b"
  "comparator a b \<noteq> 0 \<longleftrightarrow> a \<noteq> b"
  by (auto simp: comparator_def)

lemma KeyIndex_loop_spec:
  assumes "0 \<le> st" "ed < n" "st \<le> ed + 1"
    and sorted: "\<forall>i j. 0 \<le> i \<and> i \<le> j \<and> j < n \<longrightarrow> fst (a i) \<le> fst (a j)"
    and below: "\<forall>i. 0 \<le> i \<and> i < st \<longrightarrow> fst (a i) < key"
    and above: "\<forall>i. ed < i \<and> i < n \<longrightarrow> key \<le> fst (a i)"
  shows "st \<le> KeyIndex_loop a key st ed \<and> KeyIndex_loop a key st ed \<le> ed + 1 \<and>
         (\<forall>i. 0 \<le> i \<and> i < KeyIndex_loop a key st ed \<longrightarrow> fst (a i) < key) \<and>
         (\<forall>i. KeyIndex_loop a key st ed \<le> i \<and> i < n \<longrightarrow> key \<le> fst (a i))"
  using assms
proof (induction a key st ed rule: KeyIndex_loop.induct)
  case (1 a key st ed)
  show ?case
  proof (cases "st \<le> ed")
    case False
    with "1.prems" have "ed + 1 = st" by simp
    then show ?thesis
      using False "1.prems" by (subst (1 2 3 4) KeyIndex_loop.simps) auto
  next
    case True
    define mid where "mid = (ed - st) div 2 + st"
    have mid: "st \<le> mid" "mid \<le> ed" using True by (auto simp: mid_def)
    show ?thesis
    proof (cases "key \<le> fst (a mid)")
      case ge: True
      have step: "KeyIndex_loop a key st ed = KeyIndex_loop a key st (mid - 1)"
        using True ge by (subst KeyIndex_loop.simps) (simp add: mid_def Let_def)
      have above': "\<forall>i. mid - 1 < i \<and> i < n \<longrightarrow> key \<le> fst (a i)"
      proof (intro allI impI)
        fix i assume i: "mid - 1 < i \<and> i < n"
        then have "fst (a mid) \<le> fst (a i)"
          using "1.prems"(4) mid "1.prems"(1) by (auto simp: )
        with ge show "key \<le> fst (a i)" by simp
      qed
      have IH: "st \<le> KeyIndex_loop a key st (mid - 1) \<and>
          KeyIndex_loop a key st (mid - 1) \<le> mid - 1 + 1 \<and>
          (\<forall>i. 0 \<le> i \<and> i < KeyIndex_loop a key st (mid - 1) \<longrightarrow> fst (a i) < key) \<and>
          (\<forall>i. KeyIndex_loop a key st (mid - 1) \<le> i \<and> i < n \<longrightarrow> key \<le> fst (a i))"
        using "1.IH"(1) [OF True mid_def] ge "1.prems" mid above'
        by (auto simp: mid_def)
      show ?thesis unfolding step using IH mid by auto
    next
      case lt: False
      have step: "KeyIndex_loop a key st ed = KeyIndex_loop a key (mid + 1) ed"
        using True lt by (subst KeyIndex_loop.simps) (simp add: mid_def Let_def)
      have below': "\<forall>i. 0 \<le> i \<and> i < mid + 1 \<longrightarrow> fst (a i) < key"
      proof (intro allI impI)
        fix i assume i: "0 \<le> i \<and> i < mid + 1"
        then have "fst (a i) \<le> fst (a mid)"
          using "1.prems"(4) mid "1.prems"(2) by auto
        with lt show "fst (a i) < key" by simp
      qed
      have IH: "mid + 1 \<le> KeyIndex_loop a key (mid + 1) ed \<and>
          KeyIndex_loop a key (mid + 1) ed \<le> ed + 1 \<and>
          (\<forall>i. 0 \<le> i \<and> i < KeyIndex_loop a key (mid + 1) ed \<longrightarrow> fst (a i) < key) \<and>
          (\<forall>i. KeyIndex_loop a key (mid + 1) ed \<le> i \<and> i < n \<longrightarrow> key \<le> fst (a i))"
        using "1.IH"(2) [OF True mid_def] lt "1.prems" mid below'
        by (auto simp: mid_def)
      show ?thesis unfolding step using IH mid by auto
    qed
  qed
qed

lemma internal_Lookup_loop_spec:
  assumes "1 \<le> st" "ed < n" "st \<le> ed + 1"
    and sorted: "\<forall>i j. 1 \<le> i \<and> i \<le> j \<and> j < n \<longrightarrow> fst (a i) \<le> fst (a j)"
    and below: "\<forall>i. 1 \<le> i \<and> i < st \<longrightarrow> fst (a i) \<le> key"
    and above: "\<forall>i. ed < i \<and> i < n \<longrightarrow> key < fst (a i)"
  shows "st \<le> internal_Lookup_loop a key st ed \<and> internal_Lookup_loop a key st ed \<le> ed + 1 \<and>
         (\<forall>i. 1 \<le> i \<and> i < internal_Lookup_loop a key st ed \<longrightarrow> fst (a i) \<le> key) \<and>
         (\<forall>i. internal_Lookup_loop a key st ed \<le> i \<and> i < n \<longrightarrow> key < fst (a i))"
  using assms
proof (induction a key st ed rule: internal_Lookup_loop.induct)
  case (1 a key st ed)
  show ?case
  proof (cases "st \<le> ed")
    case False
    with "1.prems" have "ed + 1 = st" by simp
    then show ?thesis
      using False "1.prems" by (subst (1 2 3 4) internal_Lookup_loop.simps) auto
  next
    case True
    define mid where "mid = (ed - st) div 2 + st"
    have mid: "st \<le> mid" "mid \<le> ed" using True by (auto simp: mid_def)
    show ?thesis
    proof (cases "fst (a mid) \<le> key")
      case le: True
      have step: "internal_Lookup_loop a key st ed = internal_Lookup_loop a key (mid + 1) ed"
        using True le by (subst internal_Lookup_loop.simps) (simp add: mid_def Let_def)
      have below': "\<forall>i. 1 \<le> i \<and> i < mid + 1 \<longrightarrow> fst (a i) \<le> key"
      proof (intro allI impI)
        fix i assume i: "1 \<le> i \<and> i < mid + 1"
        then have "fst (a i) \<le> fst (a mid)"
          using "1.prems"(4) mid "1.prems"(2) by auto
        with le show "fst (a i) \<le> key" by simp
      qed
      have IH: "mid + 1 \<le> internal_Lookup_loop a key (mid + 1) ed \<and>
          internal_Lookup_loop a key (mid + 1) ed \<le> ed + 1 \<and>
          (\<forall>i. 1 \<le> i \<and> i < internal_Lookup_loop a key (mid + 1) ed \<longrightarrow> fst (a i) \<le> key) \<and>
          (\<forall>i. internal_Lookup_loop a key (mid + 1) ed \<le> i \<and> i < n \<longrightarrow> key < fst (a i))"
        using "1.IH"(1) [OF True mid_def] le "1.prems" mid below'
        by (auto simp: mid_def)
      show ?thesis unfolding step using IH mid by auto
    next
      case gt: False
      have step: "internal_Lookup_loop a key st ed = internal_Lookup_loop a key st (mid - 1)"
        using True gt by (subst internal_Lookup_loop.simps) (simp add: mid_def Let_def)
      have above': "\<forall>i. mid - 1 < i \<and> i < n \<longrightarrow> key < fst (a i)"
      proof (intro allI impI)
        fix i assume i: "mid - 1 < i \<and> i < n"
        then have "fst (a mid) \<le> fst (a i)"
          using "1.prems"(4) mid "1.prems"(1) by auto
        with gt show "key < fst (a i)" by simp
      qed
      have IH: "st \<le> internal_Lookup_loop a key st (mid - 1) \<and>
          internal_Lookup_loop a key st (mid - 1) \<le> mid - 1 + 1 \<and>
          (\<forall>i. 1 \<le> i \<and> i < internal_Lookup_loop a key st (mid - 1) \<longrightarrow> fst (a i) \<le> key) \<and>
          (\<forall>i. internal_Lookup_loop a key st (mid - 1) \<le> i \<and> i < n \<longrightarrow> key < fst (a i))"
        using "1.IH"(2) [OF True mid_def] gt "1.prems" mid above'
        by (auto simp: mid_def)
      show ?thesis unfolding step using IH mid by auto
    qed
  qed
qed

subsection \<open>Access to the pool\<close>

lemma fetch_Some [simp]: "store t p = Some pg \<Longrightarrow> fetch t p = Inr pg"
  by (simp add: fetch_def)

lemma fetch_Inr_iff: "fetch t p = Inr pg \<longleftrightarrow> store t p = Some pg"
  by (auto simp: fetch_def split: option.splits)

lemma store_put [simp]: "store (put t p pg) = (store t)(p \<mapsto> pg)"
  by (simp add: put_def)

lemma put_fields [simp]:
  "root_page_id (put t p pg) = root_page_id t"
  "next_page_id (put t p pg) = next_page_id t"
  "deleted_page_set (put t p pg) = deleted_page_set t"
  "leaf_max (put t p pg) = leaf_max t"
  "internal_max (put t p pg) = internal_max t"
  "header_root (put t p pg) = header_root t"
  by (simp_all add: put_def)

lemma bind_err_simps [simp]:
  "bind_err (Inr x) f = f x"
  "bind_err (Inl e) f = Inl e"
  by (simp_all add: bind_err_def)

lemma SetParentPageId_Some:
  "store t c = Some pg \<Longrightarrow>
   SetParentPageId t c R = Inr (put t c (pg\<lparr>ParentPageId := R\<rparr>))"
  by (simp add: SetParentPageId_def)

lemma move_entry_eq:
  assumes "store t this = Some p" "store t rcp = Some r" "this \<noteq> rcp"
    and "store t (snd (internal_array p src)) = Some c"
    and "snd (internal_array p src) \<noteq> this" "snd (internal_array p src) \<noteq> rcp"
  shows "move_entry t this rcp R dst src =
         Inr (t\<lparr>store := (store t)
                (rcp \<mapsto> r\<lparr>internal_array := (internal_array r)(dst := internal_array p src)\<rparr>,
                 snd (internal_array p src) \<mapsto> c\<lparr>ParentPageId := R\<rparr>)\<rparr>)"
  using assms
  by (simp add: move_entry_def Let_def SetParentPageId_def put_def fetch_def)

lemma move_entries_eq:
  assumes "store t this = Some p" "store t rcp = Some r" "this \<noteq> rcp"
    and kids: "\<forall>j. i \<le> j \<and> j < n \<longrightarrow>
                 store t (snd (internal_array p j)) \<noteq> None \<and>
                 snd (internal_array p j) \<noteq> this \<and> snd (internal_array p j) \<noteq> rcp"
  shows "move_entries t this rcp R off i n =
         Inr (t\<lparr>store := (reparent R ((\<lambda>j. snd (internal_array p j)) ` {i..<n}) (store t))
                (rcp \<mapsto> r\<lparr>internal_array :=
                   (\<lambda>j. if i + off \<le> j \<and> j < n + off then internal_array p (j - off)
                        else internal_array r j)\<rparr>)\<rparr>)"
  using assms
proof (induction t this rcp R off i n arbitrary: r rule: move_entries.induct)
  case (1 t this rcp R off i n)
  show ?case
  proof (cases "i < n")
    case False
    then have e: "{i..<n} = {}" by simp
    have a: "(\<lambda>j. if i + off \<le> j \<and> j < n + off then internal_array p (j - off)
                  else internal_array r j) = internal_array r"
      using False by (auto simp: fun_eq_iff)
    have "(reparent R {} (store t))(rcp \<mapsto> r) = store t"
      using "1.prems"(2) by (auto simp: reparent_def fun_eq_iff)
    then show ?thesis
      using False
      by (subst move_entries.simps) (simp add: e a)
  next
    case True
    let ?c = "snd (internal_array p i)"
    obtain cp where cp: "store t ?c = Some cp"
      using "1.prems"(4) True by auto
    have cneq: "?c \<noteq> this" "?c \<noteq> rcp"
      using "1.prems"(4) True by auto
    let ?r1 = "r\<lparr>internal_array := (internal_array r)(i + off := internal_array p i)\<rparr>"
    let ?t1 = "t\<lparr>store := (store t)(rcp \<mapsto> ?r1, ?c \<mapsto> cp\<lparr>ParentPageId := R\<rparr>)\<rparr>"
    have step: "move_entry t this rcp R (i + off) i = Inr ?t1"
      using move_entry_eq [OF "1.prems"(1,2,3) cp cneq] .
    have p1: "store ?t1 this = Some p" using "1.prems"(1,3) cneq by simp
    have r1: "store ?t1 rcp = Some ?r1" using cneq by simp
    have kids1: "\<forall>j. i + 1 \<le> j \<and> j < n \<longrightarrow>
                 store ?t1 (snd (internal_array p j)) \<noteq> None \<and>
                 snd (internal_array p j) \<noteq> this \<and> snd (internal_array p j) \<noteq> rcp"
      using "1.prems"(4) by auto
    have IH: "move_entries ?t1 this rcp R off (i + 1) n =
         Inr (?t1\<lparr>store := (reparent R ((\<lambda>j. snd (internal_array p j)) ` {i + 1..<n}) (store ?t1))
                (rcp \<mapsto> ?r1\<lparr>internal_array :=
                   (\<lambda>j. if i + 1 + off \<le> j \<and> j < n + off then internal_array p (j - off)
                        else internal_array ?r1 j)\<rparr>)\<rparr>)"
      by (rule "1.IH" [OF True step p1 r1 "1.prems"(3) kids1])
    have set_eq: "{i..<n} = insert i {i + 1..<n}" using True by auto
    have arr: "(\<lambda>j. if i + 1 + off \<le> j \<and> j < n + off then internal_array p (j - off)
                    else internal_array ?r1 j) =
               (\<lambda>j. if i + off \<le> j \<and> j < n + off then internal_array p (j - off)
                    else internal_array r j)"
      using True by (auto simp: fun_eq_iff)
    have st: "(reparent R ((\<lambda>j. snd (internal_array p j)) ` {i + 1..<n}) (store ?t1))(rcp \<mapsto> X) =
              (reparent R ((\<lambda>j. snd (internal_array p j)) ` {i..<n}) (store t))(rcp \<mapsto> X)" for X
      unfolding set_eq using cp cneq
      by (auto simp: fun_eq_iff reparent_def)
    have "move_entries t this rcp R off i n = move_entries ?t1 this rcp R off (i + 1) n"
      using True by (subst move_entries.simps) (simp add: step)
    also note IH
    finally have "move_entries t this rcp R off i n =
         Inr (t\<lparr>store := (reparent R ((\<lambda>j. snd (internal_array p j)) ` {i + 1..<n}) (store ?t1))
                (rcp \<mapsto> ?r1\<lparr>internal_array :=
                   (\<lambda>j. if i + 1 + off \<le> j \<and> j < n + off then internal_array p (j - off)
                        else internal_array ?r1 j)\<rparr>)\<rparr>)"
      by simp
    also have "?r1\<lparr>internal_array :=
                   (\<lambda>j. if i + 1 + off \<le> j \<and> j < n + off then internal_array p (j - off)
                        else internal_array ?r1 j)\<rparr> = r\<lparr>internal_array :=
                   (\<lambda>j. if i + off \<le> j \<and> j < n + off then internal_array p (j - off)
                        else internal_array r j)\<rparr>"
      using arr by simp
    finally show ?thesis
      by (simp only: st)
  qed
qed

subsection \<open>Page operations on the entries\<close>

lemma IncreaseSize_fields [simp]:
  "Size (IncreaseSize p n) = Size p + n"
  "PageType (IncreaseSize p n) = PageType p"
  "MaxSize (IncreaseSize p n) = MaxSize p"
  "ParentPageId (IncreaseSize p n) = ParentPageId p"
  "PageId (IncreaseSize p n) = PageId p"
  "NextPageId (IncreaseSize p n) = NextPageId p"
  "leaf_array (IncreaseSize p n) = leaf_array p"
  "internal_array (IncreaseSize p n) = internal_array p"
  by (simp_all add: IncreaseSize_def)

lemma ValueIndex_loop_spec:
  assumes "i \<le> r" "r < Size p" "snd (internal_array p r) = v"
    and "\<forall>j. i \<le> j \<and> j < r \<longrightarrow> snd (internal_array p j) \<noteq> v"
  shows "ValueIndex_loop p v i = r"
  using assms
proof (induction p v i rule: ValueIndex_loop.induct)
  case (1 p v i)
  show ?case
  proof (cases "i = r")
    case True
    then show ?thesis using "1.prems" by (subst ValueIndex_loop.simps) simp
  next
    case False
    then have ne: "v \<noteq> snd (internal_array p i)" and lt: "i < Size p"
      using "1.prems" by auto
    have "ValueIndex_loop p v (i + 1) = r"
      using "1.IH" [OF lt ne] "1.prems" False by auto
    then show ?thesis using ne lt by (subst ValueIndex_loop.simps) simp
  qed
qed

lemma ValueIndex_entries:
  assumes "internal_entries p = es" "idx < length es" "snd (es ! idx) = v"
    and "\<forall>j < idx. snd (es ! j) \<noteq> v"
  shows "ValueIndex p v = int idx"
proof -
  have len: "length es = nat (Size p)" using assms(1) by (auto simp: internal_entries_def)
  have nth: "\<And>j. j < length es \<Longrightarrow> es ! j = internal_array p (int j)"
    using assms(1) len by (auto simp: internal_entries_def)
  have "ValueIndex_loop p v 0 = int idx"
  proof (rule ValueIndex_loop_spec)
    show "0 \<le> int idx" by simp
    show "int idx < Size p" using assms(2) len by auto
    show "snd (internal_array p (int idx)) = v" using assms(2,3) nth by auto
    show "\<forall>j. 0 \<le> j \<and> j < int idx \<longrightarrow> snd (internal_array p j) \<noteq> v"
    proof (intro allI impI)
      fix j assume j: "0 \<le> j \<and> j < int idx"
      then have "nat j < idx" by auto
      then have "snd (es ! nat j) \<noteq> v" using assms(4) by auto
      moreover have "es ! nat j = internal_array p (int (nat j))"
        using \<open>nat j < idx\<close> assms(2) by (intro nth) auto
      ultimately show "snd (internal_array p j) \<noteq> v" using j by simp
    qed
  qed
  then show ?thesis by (simp add: ValueIndex_def)
qed

lemma internal_Remove_entries:
  assumes "internal_entries p = es" "idx < length es"
  shows "\<exists>p'. internal_Remove p (int idx) = Inr p' \<and>
           internal_entries p' = take idx es @ drop (Suc idx) es \<and>
           Size p' = Size p - 1 \<and> PageType p' = PageType p \<and> MaxSize p' = MaxSize p \<and>
           ParentPageId p' = ParentPageId p \<and> PageId p' = PageId p"
proof -
  have len: "length es = nat (Size p)" using assms(1) by (auto simp: internal_entries_def)
  then have lt: "int idx < Size p" using assms(2) by auto
  have "slots (shift_down (internal_array p) (int idx + 1) (Size p)) (Size p - 1) =
        take (nat (int idx)) (slots (internal_array p) (Size p)) @
        drop (nat (int idx) + 1) (slots (internal_array p) (Size p))"
    using lt by (intro slots_delete_shift) auto
  then show ?thesis
    using lt assms(1) by (simp add: internal_Remove_def internal_entries_def)
qed

lemma leaf_MoveAllTo_entries:
  assumes "0 \<le> Size n" "0 \<le> Size b"
  shows "leaf_entries (snd (leaf_MoveAllTo n b)) = leaf_entries b @ leaf_entries n"
    "Size (snd (leaf_MoveAllTo n b)) = Size b + Size n"
    "PageType (snd (leaf_MoveAllTo n b)) = PageType b"
    "MaxSize (snd (leaf_MoveAllTo n b)) = MaxSize b"
    "ParentPageId (snd (leaf_MoveAllTo n b)) = ParentPageId b"
    "PageId (snd (leaf_MoveAllTo n b)) = PageId b"
    "fst (leaf_MoveAllTo n b) = n\<lparr>Size := 0\<rparr>"
  using assms slots_copy_append [of "Size b" "Size n" "leaf_array n" "leaf_array b"]
  by (simp_all add: leaf_MoveAllTo_def Let_def leaf_entries_def)

lemma reparent_upd_out:
  "x \<notin> C \<Longrightarrow> reparent R C (s(x \<mapsto> pg)) = (reparent R C s)(x \<mapsto> pg)"
  by (auto simp: reparent_def fun_eq_iff)

lemma reparent_apply_out [simp]: "x \<notin> C \<Longrightarrow> reparent R C s x = s x"
  by (simp add: reparent_def)

lemma reparent_apply_in: "x \<in> C \<Longrightarrow> reparent R C s x = map_option (\<lambda>c. c\<lparr>ParentPageId := R\<rparr>) (s x)"
  by (simp add: reparent_def)

lemma internal_MoveAllTo_eq:
  assumes r: "store t rcp = Some r" and p: "store t this = Some p" and ne: "this \<noteq> rcp"
    and par: "store t (ParentPageId p) = Some par"
    and idx: "0 \<le> idx" "idx < Size par"
    and sz: "0 < Size p" "Size r + Size p \<le> MaxSize p"
    and kids: "\<forall>j. 0 \<le> j \<and> j < Size p \<longrightarrow>
                 store t (snd (internal_array p j)) \<noteq> None \<and>
                 snd (internal_array p j) \<noteq> this \<and> snd (internal_array p j) \<noteq> rcp"
  defines "p1 \<equiv> p\<lparr>internal_array := (internal_array p)
                    (0 := (fst (internal_array par idx), snd (internal_array p 0)))\<rparr>"
  shows "internal_MoveAllTo t this rcp idx =
         Inr (t\<lparr>store := (reparent (PageId r) ((\<lambda>j. snd (internal_array p j)) ` {0..<Size p}) (store t))
                (rcp \<mapsto> r\<lparr>internal_array :=
                          (\<lambda>j. if Size r \<le> j \<and> j < Size p + Size r
                               then internal_array p1 (j - Size r) else internal_array r j),
                        Size := Size r + Size p\<rparr>,
                 this \<mapsto> p1\<lparr>Size := 0\<rparr>)\<rparr>)"
proof -
  let ?C = "(\<lambda>j. snd (internal_array p j)) ` {0..<Size p}"
  let ?t1 = "put t this p1"
  have C1: "(\<lambda>j. snd (internal_array p1 j)) ` {0..<Size p1} = ?C"
  proof -
    have "snd (internal_array p1 j) = snd (internal_array p j)" for j
      by (simp add: p1_def)
    moreover have "Size p1 = Size p" by (simp add: p1_def)
    ultimately show ?thesis by simp
  qed
  have p1s: "store ?t1 this = Some p1" by simp
  have r1s: "store ?t1 rcp = Some r" using r ne by simp
  have kids1: "\<forall>j. 0 \<le> j \<and> j < Size p1 \<longrightarrow>
                 store ?t1 (snd (internal_array p1 j)) \<noteq> None \<and>
                 snd (internal_array p1 j) \<noteq> this \<and> snd (internal_array p1 j) \<noteq> rcp"
    using kids by (auto simp: p1_def)
  have thisC: "this \<notin> ?C" "rcp \<notin> ?C" using kids by auto
  have sp1: "Size p1 = Size p" "MaxSize p1 = MaxSize p" by (simp_all add: p1_def)
  have mv: "move_entries ?t1 this rcp (PageId r) (Size r) 0 (Size p) =
         Inr (?t1\<lparr>store := (reparent (PageId r) ?C (store ?t1))
                (rcp \<mapsto> r\<lparr>internal_array :=
                   (\<lambda>j. if Size r \<le> j \<and> j < Size p + Size r then internal_array p1 (j - Size r)
                        else internal_array r j)\<rparr>)\<rparr>)"
    using move_entries_eq [OF p1s r1s ne kids1, of "PageId r" "Size r"] C1 sp1 by simp
  have sk: "SetKeyAt p 0 (fst (internal_array par idx)) = Inr p1"
    using sz by (simp add: SetKeyAt_def p1_def)
  have ka: "KeyAt par idx = Inr (fst (internal_array par idx))"
    using idx by (simp add: KeyAt_def)
  let ?r2 = "r\<lparr>internal_array :=
                   (\<lambda>j. if Size r \<le> j \<and> j < Size p + Size r then internal_array p1 (j - Size r)
                        else internal_array r j)\<rparr>"
  let ?t2 = "?t1\<lparr>store := (reparent (PageId r) ?C (store ?t1))(rcp \<mapsto> ?r2)\<rparr>"
  have f2: "fetch ?t2 rcp = Inr ?r2" "fetch ?t2 this = Inr p1"
    using ne thisC by (simp_all add: fetch_def)
  have "internal_MoveAllTo t this rcp idx =
        Inr (put (put ?t2 rcp (?r2\<lparr>Size := Size r + Size p\<rparr>)) this (p1\<lparr>Size := 0\<rparr>))"
    using r p par sz
    by (simp add: internal_MoveAllTo_def Let_def sk ka mv f2 sp1 del: store_put)
  also have "put (put ?t2 rcp (?r2\<lparr>Size := Size r + Size p\<rparr>)) this (p1\<lparr>Size := 0\<rparr>) =
     t\<lparr>store := (reparent (PageId r) ?C (store t))
                (rcp \<mapsto> r\<lparr>internal_array :=
                          (\<lambda>j. if Size r \<le> j \<and> j < Size p + Size r
                               then internal_array p1 (j - Size r) else internal_array r j),
                        Size := Size r + Size p\<rparr>,
                 this \<mapsto> p1\<lparr>Size := 0\<rparr>)\<rparr>"
    using thisC ne by (simp add: put_def sp1 reparent_upd_out fun_upd_twist)
  finally show ?thesis .
qed

lemma slots_shifted_append:
  assumes "0 \<le> n" "0 \<le> m"
  shows "slots (\<lambda>j. if n \<le> j \<and> j < m + n then src (j - n) else dst j) (n + m) =
         slots dst n @ slots src m"
  using assms
  by (intro nth_equalityI) (auto simp: nth_append nat_add_distrib nat_diff_distrib
      nat_less_iff int_ops add.commute)

lemma slots_upd0:
  assumes "0 < n"
  shows "slots (a(0 := x)) n = x # tl (slots a n)"
  using assms
  by (intro nth_equalityI) (auto simp: nth_Cons' nth_tl nat_diff_distrib int_ops)

lemma Coalesce_leaf_eq:
  assumes l: "store t left = Some lp" and r: "store t right = Some rp"
    and pa: "store t parent = Some par"
    and ne: "left \<noteq> right" "parent \<noteq> left" "parent \<noteq> right"
    and sz: "0 \<le> Size lp" "0 \<le> Size rp" "Size rp + Size lp \<le> MaxSize rp"
    and es: "internal_entries par = es" "idx < length es"
  shows "\<exists>lp' par'.
      Coalesce LEAF_PAGE t left right parent (int idx) =
        Inr (t\<lparr>store := (store t)(left \<mapsto> lp', right \<mapsto> rp\<lparr>Size := 0\<rparr>, parent \<mapsto> par'),
               deleted_page_set := insert (PageId rp) (deleted_page_set t)\<rparr>,
             Size par' \<le> GetMinSize par') \<and>
      leaf_entries lp' = leaf_entries lp @ leaf_entries rp \<and>
      Size lp' = Size lp + Size rp \<and> PageType lp' = PageType lp \<and> MaxSize lp' = MaxSize lp \<and>
      ParentPageId lp' = ParentPageId lp \<and> PageId lp' = PageId lp \<and>
      internal_entries par' = take idx es @ drop (Suc idx) es \<and>
      Size par' = Size par - 1 \<and> PageType par' = PageType par \<and> MaxSize par' = MaxSize par \<and>
      ParentPageId par' = ParentPageId par \<and> PageId par' = PageId par"
proof -
  obtain par' where par': "internal_Remove par (int idx) = Inr par'"
      "internal_entries par' = take idx es @ drop (Suc idx) es"
      "Size par' = Size par - 1" "PageType par' = PageType par" "MaxSize par' = MaxSize par"
      "ParentPageId par' = ParentPageId par" "PageId par' = PageId par"
    using internal_Remove_entries [OF es] by blast
  define lp' where "lp' = snd (leaf_MoveAllTo rp lp)"
  have mv: "leaf_MoveAllTo rp lp = (rp\<lparr>Size := 0\<rparr>, lp')"
    using leaf_MoveAllTo_entries(7) [OF sz(2,1)] by (simp add: prod_eq_iff lp'_def)
  have "Coalesce LEAF_PAGE t left right parent (int idx) =
        Inr (t\<lparr>store := (store t)(left \<mapsto> lp', right \<mapsto> rp\<lparr>Size := 0\<rparr>, parent \<mapsto> par'),
               deleted_page_set := insert (PageId rp) (deleted_page_set t)\<rparr>,
             Size par' \<le> GetMinSize par')"
    using l r pa ne sz
    by (simp add: Coalesce_def mv par'(1) fetch_def put_def Let_def)
  then show ?thesis
    using leaf_MoveAllTo_entries [OF sz(2,1)] par' unfolding lp'_def [symmetric] by blast
qed

lemma set_slots: "set (slots a n) = a ` {0..<n}"
proof -
  have "(\<lambda>i. a (int i)) ` {0..<nat n} = a ` {0..<n}"
  proof (intro equalityI subsetI)
    fix x assume "x \<in> (\<lambda>i. a (int i)) ` {0..<nat n}"
    then obtain i where "i < nat n" "x = a (int i)" by auto
    then show "x \<in> a ` {0..<n}" by (intro image_eqI [of _ _ "int i"]) auto
  next
    fix x assume "x \<in> a ` {0..<n}"
    then obtain j where "0 \<le> j" "j < n" "x = a j" by auto
    then show "x \<in> (\<lambda>i. a (int i)) ` {0..<nat n}"
      by (intro image_eqI [of _ _ "nat j"]) auto
  qed
  then show ?thesis by (simp add: slots_def)
qed

lemma hd_slots: "0 < n \<Longrightarrow> hd (slots a n) = a 0"
  by (simp add: slots_def hd_map upt_conv_Cons)

lemma Coalesce_internal_eq:
  assumes l: "store t left = Some lp" and r: "store t right = Some rp"
    and pa: "store t parent = Some par" and rpar: "ParentPageId rp = parent"
    and ne: "left \<noteq> right" "parent \<noteq> left" "parent \<noteq> right"
    and sz: "0 \<le> Size lp" "0 < Size rp" "Size rp + Size lp \<le> MaxSize rp"
    and es: "internal_entries par = es" "idx < length es"
    and kids: "\<forall>c \<in> snd ` set (internal_entries rp).
                 store t c \<noteq> None \<and> c \<noteq> left \<and> c \<noteq> right \<and> c \<noteq> parent"
  shows "\<exists>lp' rp' par'.
      Coalesce INTERNAL_PAGE t left right parent (int idx) =
        Inr (t\<lparr>store := (reparent (PageId lp) (snd ` set (internal_entries rp)) (store t))
                  (left \<mapsto> lp', right \<mapsto> rp', parent \<mapsto> par'),
               deleted_page_set := insert (PageId rp) (deleted_page_set t)\<rparr>,
             Size par' \<le> GetMinSize par') \<and>
      internal_entries lp' = internal_entries lp @
          (fst (es ! idx), snd (hd (internal_entries rp))) # tl (internal_entries rp) \<and>
      Size lp' = Size lp + Size rp \<and> PageType lp' = PageType lp \<and> MaxSize lp' = MaxSize lp \<and>
      ParentPageId lp' = ParentPageId lp \<and> PageId lp' = PageId lp \<and>
      fst (internal_array rp' 0) = fst (es ! idx) \<and>
      internal_entries par' = take idx es @ drop (Suc idx) es \<and>
      Size par' = Size par - 1 \<and> PageType par' = PageType par \<and> MaxSize par' = MaxSize par \<and>
      ParentPageId par' = ParentPageId par \<and> PageId par' = PageId par"
proof -
  obtain par' where par': "internal_Remove par (int idx) = Inr par'"
      "internal_entries par' = take idx es @ drop (Suc idx) es"
      "Size par' = Size par - 1" "PageType par' = PageType par" "MaxSize par' = MaxSize par"
      "ParentPageId par' = ParentPageId par" "PageId par' = PageId par"
    using internal_Remove_entries [OF es] by blast
  have len: "length es = nat (Size par)" using es(1) by (auto simp: internal_entries_def)
  have idx: "0 \<le> int idx" "int idx < Size par" using es(2) len by auto
  have key: "internal_array par (int idx) = es ! idx"
    using es idx by (auto simp: internal_entries_def)
  have Ceq: "(\<lambda>j. snd (internal_array rp j)) ` {0..<Size rp} = snd ` set (internal_entries rp)"
    (is "?C = _")
    by (simp add: internal_entries_def set_slots image_image)
  have kids': "\<forall>j. 0 \<le> j \<and> j < Size rp \<longrightarrow>
                 store t (snd (internal_array rp j)) \<noteq> None \<and>
                 snd (internal_array rp j) \<noteq> right \<and> snd (internal_array rp j) \<noteq> left"
    using kids unfolding Ceq [symmetric] by auto
  have pnotin: "parent \<notin> ?C" "left \<notin> ?C" "right \<notin> ?C"
    using kids unfolding Ceq [symmetric] by auto
  define rp1 where "rp1 = rp\<lparr>internal_array := (internal_array rp)
                    (0 := (fst (internal_array par (int idx)), snd (internal_array rp 0)))\<rparr>"
  define lp' where "lp' = lp\<lparr>internal_array :=
                          (\<lambda>j. if Size lp \<le> j \<and> j < Size rp + Size lp
                               then internal_array rp1 (j - Size lp) else internal_array lp j),
                        Size := Size lp + Size rp\<rparr>"
  have pa': "store t (ParentPageId rp) = Some par" using pa rpar by simp
  have mv: "internal_MoveAllTo t right left (int idx) =
         Inr (t\<lparr>store := (reparent (PageId lp) ?C (store t))(left \<mapsto> lp', right \<mapsto> rp1\<lparr>Size := 0\<rparr>)\<rparr>)"
  proof -
    have "Size lp + Size rp \<le> MaxSize rp" using sz by simp
    from internal_MoveAllTo_eq [OF l r ne(1) [symmetric] pa' idx sz(2) this kids']
    show ?thesis unfolding rp1_def lp'_def .
  qed
  have co: "Coalesce INTERNAL_PAGE t left right parent (int idx) =
        Inr (t\<lparr>store := (reparent (PageId lp) ?C (store t))
                  (left \<mapsto> lp', right \<mapsto> rp1\<lparr>Size := 0\<rparr>, parent \<mapsto> par'),
               deleted_page_set := insert (PageId rp) (deleted_page_set t)\<rparr>,
             Size par' \<le> GetMinSize par')"
    using l r pa ne sz pnotin
    by (simp add: Coalesce_def mv par'(1) fetch_def put_def Let_def rp1_def)
  have "slots (\<lambda>j. if Size lp \<le> j \<and> j < Size rp + Size lp
                               then internal_array rp1 (j - Size lp) else internal_array lp j)
          (Size lp + Size rp) = slots (internal_array lp) (Size lp) @ slots (internal_array rp1) (Size rp)"
    using slots_shifted_append [of "Size lp" "Size rp" "internal_array rp1" "internal_array lp"] sz
    by simp
  moreover have "slots (internal_array rp1) (Size rp) =
      (fst (es ! idx), snd (hd (internal_entries rp))) # tl (internal_entries rp)"
    using slots_upd0 [OF sz(2), of "internal_array rp"] hd_slots [OF sz(2), of "internal_array rp"]
    by (simp add: rp1_def key internal_entries_def)
  ultimately have ent: "internal_entries lp' = internal_entries lp @
          (fst (es ! idx), snd (hd (internal_entries rp))) # tl (internal_entries rp)"
    by (simp add: lp'_def internal_entries_def)
  have "fst (internal_array (rp1\<lparr>Size := 0\<rparr>) 0) = fst (es ! idx)"
    by (simp add: rp1_def key)
  then show ?thesis
    using co ent par' unfolding Ceq
    by (intro exI [of _ lp'] exI [of _ "rp1\<lparr>Size := 0\<rparr>"] exI [of _ par'])
       (simp add: lp'_def)
qed

subsection \<open>Coalescing\<close>

lemma siblings_eq:
  assumes n: "store t node = Some n" "PageId n = node"
    and par: "store t (ParentPageId n) = Some par" "internal_entries par = es"
    and i: "i < length es" "snd (es ! i) = node" "\<forall>j<i. snd (es ! j) \<noteq> node" "2 \<le> length es"
    and s: "store t (snd (es ! (if i = 0 then 1 else i - 1))) = Some s"
  shows "siblings t node = Inr (snd (es ! (if i = 0 then 1 else i - 1)), i = 0, ParentPageId n,
                               Size n + Size s \<le> MaxSize n)"
proof -
  have vi: "ValueIndex par node = int i"
    using ValueIndex_entries [OF par(2) i(1,2,3)] .
  have len: "length es = nat (Size par)" using par(2) by (auto simp: internal_entries_def)
  define j where "j = (if i = 0 then 1 else i - 1)"
  have j: "j < length es" using i by (auto simp: j_def)
  have va: "ValueAt par (int j) = Inr (snd (es ! j))"
    using j len par(2) by (auto simp: ValueAt_def internal_entries_def)
  have va': "i = 0 \<Longrightarrow> ValueAt par 1 = Inr (snd (es ! j))"
    "0 < i \<Longrightarrow> ValueAt par (int i - 1) = Inr (snd (es ! j))"
    using va by (auto simp: j_def of_nat_diff)
  have fl: "FindLeftSibling t node = Inr (snd (es ! j), i = 0)"
    using n par s unfolding j_def [symmetric]
    by (simp add: FindLeftSibling_def Let_def vi va')
  show ?thesis
    unfolding j_def [symmetric]
    using n par s unfolding j_def [symmetric]
    by (simp add: siblings_def fl)
qed

lemma CoalesceOrRedistribute_coalesce:
  assumes n: "store t node = Some n" "ParentPageId n \<noteq> INVALID_PAGE_ID"
    and sib: "siblings t node = Inr (node2, isRightSib, parent, True)"
    and par: "store t parent = Some par"
    and right: "store t (if isRightSib then node2 else node) = Some rp"
    and co: "Coalesce N t (if isRightSib then node else node2) (if isRightSib then node2 else node)
               parent (ValueIndex par (PageId rp)) = Inr (t1, recurse)"
  shows "CoalesceOrRedistribute N t node =
           (if recurse
            then Option.bind (CoalesceOrRedistribute INTERNAL_PAGE t1 parent)
                   (\<lambda>r. Some (map_sum id (\<lambda>(b, t2). (True, t2)) r))
            else Some (Inr (True, t1)))"
  using assms
  by (subst CoalesceOrRedistribute.simps) (simp add: IsRootPage_def)

text \<open>
  Claim C7, for a page \<open>node\<close> at slot \<open>i\<close> of its parent that fits in one page with
  its sibling (the left one, or the right one for slot 0): \<open>CoalesceOrRedistribute\<close>
  moves the entries of the right page of the two behind those of the left one and removes
  the slot of the right page, with the separator key, from the parent. For internal pages
  the separator key is written to \<open>array[0].first\<close> of the right page before the move, so
  it arrives in the left page as the key of the first entry moved; for leaf pages
  (\<open>N = LEAF_PAGE\<close>) the array of the right page is not written and the separator is
  dropped. The function then calls itself on the parent exactly if
  \<open>parent->GetSize() <= parent->GetMinSize()\<close>, and returns otherwise.
\<close>

theorem coalesce_into_left:
  assumes n: "store t node = Some n" "PageId n = node" "ParentPageId n = parent"
      "parent \<noteq> INVALID_PAGE_ID"
    and par: "store t parent = Some par" "internal_entries par = es" "distinct (map snd es)"
    and i: "i < length es" "snd (es ! i) = node" "2 \<le> length es"
      "idx = (if i = 0 then 1 else i)"
    and l: "store t (snd (es ! (idx - 1))) = Some lp"
    and r: "store t (snd (es ! idx)) = Some rp" "PageId rp = snd (es ! idx)"
      "ParentPageId rp = parent"
    and ne: "parent \<noteq> snd (es ! (idx - 1))" "parent \<noteq> snd (es ! idx)"
    and sz: "0 \<le> Size lp" "if N = LEAF_PAGE then 0 \<le> Size rp else 0 < Size rp"
      "Size lp + Size rp \<le> MaxSize rp" "MaxSize lp = MaxSize rp"
    and kids: "N \<noteq> LEAF_PAGE \<longrightarrow> (\<forall>c \<in> snd ` set (internal_entries rp).
                 store t c \<noteq> None \<and> c \<noteq> snd (es ! (idx - 1)) \<and> c \<noteq> snd (es ! idx) \<and>
                 c \<noteq> parent)"
  shows "\<exists>t1 par' lp' rp'.
      store t1 parent = Some par' \<and>
      internal_entries par' = take idx es @ drop (Suc idx) es \<and>
      store t1 (snd (es ! (idx - 1))) = Some lp' \<and>
      store t1 (snd (es ! idx)) = Some rp' \<and>
      (if N = LEAF_PAGE
       then leaf_entries lp' = leaf_entries lp @ leaf_entries rp \<and>
            leaf_array rp' = leaf_array rp
       else internal_entries lp' = internal_entries lp @
              (fst (es ! idx), snd (hd (internal_entries rp))) # tl (internal_entries rp) \<and>
            fst (internal_array rp' 0) = fst (es ! idx)) \<and>
      CoalesceOrRedistribute N t node =
        (if Size par' \<le> GetMinSize par'
         then Option.bind (CoalesceOrRedistribute INTERNAL_PAGE t1 parent)
                (\<lambda>r. Some (map_sum id (\<lambda>(b, t2). (True, t2)) r))
         else Some (Inr (True, t1)))"
proof -
  let ?left = "snd (es ! (idx - 1))" and ?right = "snd (es ! idx)"
  have idx: "idx < length es" "0 < idx" using i by auto
  have lr: "?left \<noteq> ?right"
    using par(3) idx by (simp add: distinct_conv_nth nth_eq_iff_index_eq)
  define j where "j = (if i = 0 then 1 else i - 1)"
  have node: "node = (if i = 0 then ?left else ?right)" using i by auto
  have sibp: "snd (es ! j) = (if i = 0 then ?right else ?left)" using i by (auto simp: j_def)
  have first: "\<forall>j<i. snd (es ! j) \<noteq> node"
    using par(3) i by (auto simp: distinct_conv_nth)
  obtain s where s: "store t (snd (es ! j)) = Some s" "s = (if i = 0 then rp else lp)"
    using l r sibp by auto
  have fits: "Size n + Size s \<le> MaxSize n"
    using n(1) l r s sz node by (auto split: if_splits)
  have sib: "siblings t node = Inr (snd (es ! j), i = 0, parent, True)"
    using siblings_eq [OF n(1,2) _ par(2) i(1,2) first i(3)] par(1) n(3) s(1) fits
    by (simp add: j_def)
  have rsel: "(if i = 0 then snd (es ! j) else node) = ?right"
       "(if i = 0 then node else snd (es ! j)) = ?left"
    using node sibp by auto
  have vi: "ValueIndex par (PageId rp) = int idx"
    using ValueIndex_entries [OF par(2) idx(1), of ?right] par(3) idx r(2)
    by (auto simp: distinct_conv_nth)
  have cor: "CoalesceOrRedistribute N t node =
           (if recurse
            then Option.bind (CoalesceOrRedistribute INTERNAL_PAGE t1 parent)
                   (\<lambda>r. Some (map_sum id (\<lambda>(b, t2). (True, t2)) r))
            else Some (Inr (True, t1)))"
    if "Coalesce N t ?left ?right parent (int idx) = Inr (t1, recurse)" for t1 recurse
    using CoalesceOrRedistribute_coalesce [OF n(1) _ sib par(1), of rp N t1 recurse]
      n(3,4) r(1) that rsel vi
    by simp
  show ?thesis
  proof (cases "N = LEAF_PAGE")
    case True
    obtain lp' par' where c: "Coalesce LEAF_PAGE t ?left ?right parent (int idx) =
        Inr (t\<lparr>store := (store t)(?left \<mapsto> lp', ?right \<mapsto> rp\<lparr>Size := 0\<rparr>, parent \<mapsto> par'),
               deleted_page_set := insert (PageId rp) (deleted_page_set t)\<rparr>,
             Size par' \<le> GetMinSize par')"
      and e: "leaf_entries lp' = leaf_entries lp @ leaf_entries rp"
        "internal_entries par' = take idx es @ drop (Suc idx) es"
      using Coalesce_leaf_eq [OF l r(1) par(1) lr ne _ _ _ par(2) idx(1)] sz True
      by (auto simp: add.commute)
    show ?thesis
      using cor [OF c [unfolded True [symmetric]]] e True ne lr
      by (intro exI [of _ "t\<lparr>store := (store t)(?left \<mapsto> lp', ?right \<mapsto> rp\<lparr>Size := 0\<rparr>, parent \<mapsto> par'),
               deleted_page_set := insert (PageId rp) (deleted_page_set t)\<rparr>"]
            exI [of _ par'] exI [of _ lp'] exI [of _ "rp\<lparr>Size := 0\<rparr>"]) simp
  next
    case False
    then have N: "N = INTERNAL_PAGE \<or> N = INVALID_INDEX_PAGE" by (cases N) auto
    have kids': "\<forall>c \<in> snd ` set (internal_entries rp).
                 store t c \<noteq> None \<and> c \<noteq> ?left \<and> c \<noteq> ?right \<and> c \<noteq> parent"
      using kids False by simp
    have szr: "0 < Size rp" "Size rp + Size lp \<le> MaxSize rp" using sz False by auto
    obtain lp' rp' par' where c: "Coalesce INTERNAL_PAGE t ?left ?right parent (int idx) =
        Inr (t\<lparr>store := (reparent (PageId lp) (snd ` set (internal_entries rp)) (store t))
                  (?left \<mapsto> lp', ?right \<mapsto> rp', parent \<mapsto> par'),
               deleted_page_set := insert (PageId rp) (deleted_page_set t)\<rparr>,
             Size par' \<le> GetMinSize par')"
      and e: "internal_entries lp' = internal_entries lp @
          (fst (es ! idx), snd (hd (internal_entries rp))) # tl (internal_entries rp)"
        "fst (internal_array rp' 0) = fst (es ! idx)"
        "internal_entries par' = take idx es @ drop (Suc idx) es"
      using Coalesce_internal_eq [OF l r(1) par(1) r(3) lr ne sz(1) szr par(2) idx(1) kids']
      by blast
    have same: "Coalesce N t a b c d = Coalesce INTERNAL_PAGE t a b c d" for a b c d
      using False by (simp add: Coalesce_def cong: if_cong)
    show ?thesis
      using cor [OF c [folded same]] e False ne lr
      by (intro exI [of _ "t\<lparr>store := (reparent (PageId lp) (snd ` set (internal_entries rp)) (store t))
                  (?left \<mapsto> lp', ?right \<mapsto> rp', parent \<mapsto> par'),
               deleted_page_set := insert (PageId rp) (deleted_page_set t)\<rparr>"]
            exI [of _ par'] exI [of _ lp'] exI [of _ rp']) simp
  qed
qed

lemma internal_of_fields [simp]:
  "PageType (internal_of pid parent mx es) = INTERNAL_PAGE"
  "Size (internal_of pid parent mx es) = int (length es)"
  "MaxSize (internal_of pid parent mx es) = mx"
  "ParentPageId (internal_of pid parent mx es) = parent"
  "PageId (internal_of pid parent mx es) = pid"
  by (simp_all add: internal_of_def)

lemma leaf_of_fields [simp]:
  "PageType (leaf_of pid parent next mx es) = LEAF_PAGE"
  "Size (leaf_of pid parent next mx es) = int (length es)"
  "MaxSize (leaf_of pid parent next mx es) = mx"
  "ParentPageId (leaf_of pid parent next mx es) = parent"
  "PageId (leaf_of pid parent next mx es) = pid"
  "NextPageId (leaf_of pid parent next mx es) = next"
  by (simp_all add: leaf_of_def)

theorem coalesce_into_left_witness:
  "\<exists>t1 par' lp' rp'.
      store t1 1 = Some par' \<and> internal_entries par' = [(0, 2)] \<and>
      store t1 2 = Some lp' \<and> store t1 3 = Some rp' \<and>
      internal_entries lp' = [(0, 4), (20, 5), (50, 6)] \<and>
      fst (internal_array rp' 0) = 50 \<and>
      CoalesceOrRedistribute INTERNAL_PAGE two_level 3 =
        (if Size par' \<le> GetMinSize par'
         then Option.bind (CoalesceOrRedistribute INTERNAL_PAGE t1 1)
                (\<lambda>r. Some (map_sum id (\<lambda>(b, t2). (True, t2)) r))
         else Some (Inr (True, t1)))"
  using coalesce_into_left [where t = two_level and node = 3 and N = INTERNAL_PAGE
      and n = "internal_of 3 1 4 [(0, 6)]" and parent = 1
      and par = "internal_of 1 INVALID_PAGE_ID 4 [(0, 2), (50, 3)]"
      and es = "[(0, 2), (50, 3)]" and i = 1 and idx = 1
      and lp = "internal_of 2 1 4 [(0, 4), (20, 5)]" and rp = "internal_of 3 1 4 [(0, 6)]"]
  by (simp add: two_level_def INVALID_PAGE_ID_def)

theorem leaf_coalesce_counterexample:
  "(case store leaves_12_4 3 of Some par \<Rightarrow> KeyAt par 1 = Inr 3 | None \<Rightarrow> False) \<and>
   (case CoalesceOrRedistribute LEAF_PAGE leaves_12_4 2 of
      Some (Inr (b, t1)) \<Rightarrow>
        (case (store t1 1, store t1 2) of
           (Some lp', Some rp') \<Rightarrow>
             map fst (leaf_entries lp') = [1, 2, 4] \<and> fst (leaf_array rp' 0) = 4
         | _ \<Rightarrow> False)
    | _ \<Rightarrow> False)"
  by code_simp

end
